theory Spec2Isabelle
  imports Main "HOL-Library.AList"
begin

section \<open>Data model of the room core\<close>

text \<open>
  The development embeds the storage, history and flush parts of
  \<^verbatim>\<open>makeStateMachine\<close> in \<^verbatim>\<open>packages/liveblocks-core/src/room.ts\<close>.
  The machine context becomes a record that every function takes and returns.
  A JavaScript exception becomes the outcome \<open>Thrown\<close>, which carries the
  context as it was when the exception left the function, because the writes
  made before a \<^verbatim>\<open>throw\<close> stay in place.

  Left out: the event hub and the update descriptors handed to \<^verbatim>\<open>notify\<close>,
  \<^verbatim>\<open>notifyStorageStatus\<close> and \<^verbatim>\<open>onHistoryChange\<close> (subscribers are host
  code), the debug-only \<^verbatim>\<open>opStackTraces\<close>, and the fields of the connection
  state machine that the functions below never read (token, retry counter,
  others, heartbeat timers, the user id and user info of a connection). The
  wrapper \<^verbatim>\<open>batchUpdates\<close> is the default pass-through one. The connection
  status \<^verbatim>\<open>open\<close> is written \<open>opened\<close>.
\<close>

datatype Json = JNull | JBool bool | JNum int | JStr string
  | JArr "Json list" | JObj "(string \<times> Json) list"

text \<open>
  A presence object or patch: own keys in insertion order; the value \<open>None\<close>
  is a key that holds \<^verbatim>\<open>undefined\<close>.
\<close>

type_synonym Presence = "(string \<times> Json option) list"

datatype OpCode =
    SET_PARENT_KEY | CREATE_LIST | UPDATE_OBJECT | CREATE_OBJECT
  | DELETE_CRDT | DELETE_OBJECT_KEY | CREATE_MAP | CREATE_REGISTER

text \<open>
  The fields of an \<^verbatim>\<open>Op\<close> that room.ts reads: \<^verbatim>\<open>type\<close>, \<^verbatim>\<open>id\<close> (the target
  node), the optional \<^verbatim>\<open>opId\<close>, \<^verbatim>\<open>parentId\<close> and \<^verbatim>\<open>parentKey\<close>; the rest of
  the op is the payload.
\<close>

record Op =
  optype :: OpCode
  nodeid :: string
  opId :: "string option"
  parentId :: "string option"
  parentKey :: "string option"
  payload :: "(string \<times> Json) list"

datatype HistoryOp = StorageOp Op | PresenceOp Presence

datatype OpSource = UNDOREDO_RECONNECT | REMOTE | ACK

text \<open>
  \<^verbatim>\<open>ApplyResult\<close>: \<^verbatim>\<open>{ modified: false }\<close>, or the id of the modified node with
  the reverse ops.
\<close>

datatype ApplyResult = NotModified | Modified string "Op list"

datatype ClientMsg =
    UPDATE_PRESENCE "int option" Presence
  | BROADCAST_EVENT Json
  | FETCH_STORAGE
  | UPDATE_STORAGE "Op list"

datatype BufferedMe = Partial Presence | Full Presence

record Buffer =
  buffer_me :: "BufferedMe option"
  buffer_messages :: "ClientMsg list"
  buffer_storageOperations :: "Op list"

record ActiveBatch =
  batch_ops :: "Op list"
  batch_reverseOps :: "HistoryOp list"

datatype Connection =
    closed | authenticating | connecting int bool | opened int bool
  | unavailable | failed

datatype ReadyState = CONNECTING | OPEN | CLOSING | CLOSED

datatype error = Error string | NonNullAssertion | TypeError

datatype ('a, 's) outcome = Returned 'a 's | Thrown error 's

fun state_of :: "('a, 's) outcome \<Rightarrow> 's" where
  "state_of (Returned x s) = s"
| "state_of (Thrown e s) = s"

fun returned :: "('a, 's) outcome \<Rightarrow> bool" where
  "returned (Returned x s) = True"
| "returned (Thrown e s) = False"

text \<open>
  The context. \<open>socket\<close> is the \<^verbatim>\<open>readyState\<close> of the WebSocket, \<open>None\<close> for
  \<^verbatim>\<open>null\<close>. \<open>nodes\<close> is the node pool with the CRDT nodes in it, of a type
  the room does not look into; \<open>root\<close> is the id of the root object.
  \<open>timeoutHandles_flush\<close> is the armed flush timer with its delay.
  \<open>unacknowledgedOps\<close> is a JavaScript \<^verbatim>\<open>Map\<close>: an association list in
  insertion order, written with \<open>AList.update\<close> and \<open>AList.delete\<close>.
  \<open>getInitialStatePromise\<close> says that \<^verbatim>\<open>_getInitialStatePromise\<close> is not null.
  \<open>sent\<close> lists the frames handed to \<^verbatim>\<open>effects.send\<close>, oldest first.
\<close>

record 'r MachineContext =
  lastConnectionId :: "int option"
  socket :: "ReadyState option"
  lastFlushTime :: int
  buffer :: Buffer
  timeoutHandles_flush :: "int option"
  connection :: Connection
  me :: Presence
  opClock :: nat
  nodes :: 'r
  root :: "string option"
  undoStack :: "HistoryOp list list"
  redoStack :: "HistoryOp list list"
  pausedHistory :: "HistoryOp list option"
  activeBatch :: "ActiveBatch option"
  unacknowledgedOps :: "(string \<times> Op) list"
  getInitialStatePromise :: bool
  sent :: "ClientMsg list list"

record SerializedCrdt =
  crdt_parentId :: "string option"
  crdt_parentKey :: "string option"
  crdt_data :: "(string \<times> Json) list"

type_synonym IdTuple = "string \<times> SerializedCrdt"

text \<open>
  What the room takes from outside: the configuration (\<^verbatim>\<open>config.throttleDelay\<close>,
  the initial storage), the clock (\<open>now\<close> is what \<^verbatim>\<open>Date.now()\<close> returns
  during the call), and the CRDT code (\<^verbatim>\<open>LiveObject\<close>, \<^verbatim>\<open>LiveList\<close>, the
  protocol helpers), whose sources are not part of room.ts. \<open>node_apply op isLocal\<close> is
  \<^verbatim>\<open>nodes.get(op.id)._apply(op, isLocal)\<close>, \<open>setChildKey\<close> is the list
  parent's \<^verbatim>\<open>_setChildKey\<close>, \<open>attachChild\<close> the parent's \<^verbatim>\<open>_attachChild\<close>;
  each returns its result with the pool as it leaves it. \<open>root_set\<close> is
  \<^verbatim>\<open>context.root.set(key, value)\<close>, host-facing code that reaches back into
  the room through the pool, so it acts on the whole context.
\<close>

record 'r Env =
  throttleDelay :: int
  now :: int
  initialStorage :: "(string \<times> Json) list"
  isAckOp :: "Op \<Rightarrow> bool"
  isRootCrdt :: "SerializedCrdt \<Rightarrow> bool"
  has_node :: "'r \<Rightarrow> string \<Rightarrow> bool"
  parent_is_list :: "'r \<Rightarrow> string \<Rightarrow> bool"
  node_apply :: "Op \<Rightarrow> bool \<Rightarrow> 'r \<Rightarrow> ApplyResult \<times> 'r"
  setChildKey :: "Op \<Rightarrow> OpSource \<Rightarrow> 'r \<Rightarrow> ApplyResult \<times> 'r"
  attachChild :: "Op \<Rightarrow> OpSource \<Rightarrow> 'r \<Rightarrow> ApplyResult \<times> 'r"
  getTreesDiffOperations :: "'r \<Rightarrow> IdTuple list \<Rightarrow> Op list"
  deserialize :: "IdTuple \<Rightarrow> (string option \<times> IdTuple list) list \<Rightarrow> 'r \<Rightarrow> 'r"
  root_get_undefined :: "'r \<Rightarrow> string \<Rightarrow> bool"
  root_set :: "string \<Rightarrow> Json \<Rightarrow> 'r MachineContext
    \<Rightarrow> (unit, 'r MachineContext) outcome"

section \<open>The initial context\<close>

definition initial_context :: "Presence \<Rightarrow> 'r \<Rightarrow> 'r MachineContext" where
  "initial_context initialPresence emptyPool =
     \<lparr> lastConnectionId = None, socket = None, lastFlushTime = 0,
       buffer = \<lparr> buffer_me = Some (Full initialPresence), buffer_messages = [],
                  buffer_storageOperations = [] \<rparr>,
       timeoutHandles_flush = None, connection = closed, me = initialPresence,
       opClock = 0, nodes = emptyPool, root = None, undoStack = [], redoStack = [],
       pausedHistory = None, activeBatch = None, unacknowledgedOps = [],
       getInitialStatePromise = False, sent = [] \<rparr>"

section \<open>Identifiers\<close>

definition digit10 :: "nat \<Rightarrow> char" where
  "digit10 d = ''0123456789'' ! (d mod 10)"

fun string_of_nat :: "nat \<Rightarrow> string" where
  "string_of_nat n =
     (if n < 10 then [digit10 n] else string_of_nat (n div 10) @ [digit10 n])"

definition string_of_int :: "int \<Rightarrow> string" where
  "string_of_int i = (if i < 0 then CHR ''-'' # string_of_nat (nat (- i)) else string_of_nat (nat i))"

fun isConnectionSelfAware :: "Connection \<Rightarrow> bool" where
  "isConnectionSelfAware (connecting i ro) = True"
| "isConnectionSelfAware (opened i ro) = True"
| "isConnectionSelfAware c = False"

fun getConnectionId :: "'r MachineContext \<Rightarrow> error + int" where
  "getConnectionId s =
     (case connection s of
        connecting i ro \<Rightarrow> Inr i
      | opened i ro \<Rightarrow> Inr i
      | _ \<Rightarrow> (case lastConnectionId s of
                Some i \<Rightarrow> Inr i
              | None \<Rightarrow> Inl (Error ''Internal. Tried to get connection id but connection was never open'')))"

definition generateOpId :: "'r MachineContext \<Rightarrow> (string, 'r MachineContext) outcome" where
  "generateOpId s =
     (case getConnectionId s of
        Inl e \<Rightarrow> Thrown e s
      | Inr cid \<Rightarrow>
          Returned (string_of_int cid @ '':'' @ string_of_nat (opClock s))
                   (s\<lparr>opClock := opClock s + 1\<rparr>))"

section \<open>Storage status\<close>

datatype StorageStatus = not_loaded | loading | synchronizing | synchronized

definition getStorageStatus :: "'r MachineContext \<Rightarrow> StorageStatus" where
  "getStorageStatus s =
     (if \<not> getInitialStatePromise s then not_loaded
      else if root s = None then loading
      else if length (unacknowledgedOps s) = 0 then synchronized
      else synchronizing)"

section \<open>The outbound flush pipeline\<close>

text \<open>\<^verbatim>\<open>effects.send\<close>: throws without a socket, else hands the frame over.\<close>

definition send :: "ClientMsg list \<Rightarrow> 'r MachineContext \<Rightarrow> (unit, 'r MachineContext) outcome" where
  "send msgs s =
     (if socket s = None then Thrown (Error ''Can't send message if socket is null'') s
      else Returned () (s\<lparr>sent := sent s @ [msgs]\<rparr>))"

text \<open>\<^verbatim>\<open>messages.push(x)\<close> on the local array.\<close>

definition push :: "'a list \<Rightarrow> 'a \<Rightarrow> 'a list" where
  "push xs x = xs @ [x]"

definition flushDataToMessages :: "'r MachineContext \<Rightarrow> ClientMsg list" where
  "flushDataToMessages state =
     (let messages = [];
          messages = (case buffer_me (buffer state) of
                        None \<Rightarrow> messages
                      | Some (Full d) \<Rightarrow> push messages (UPDATE_PRESENCE (Some (- 1)) d)
                      | Some (Partial d) \<Rightarrow> push messages (UPDATE_PRESENCE None d));
          messages = foldl push messages (buffer_messages (buffer state));
          messages = (if length (buffer_storageOperations (buffer state)) > 0
                      then push messages (UPDATE_STORAGE (buffer_storageOperations (buffer state)))
                      else messages)
      in messages)"

text \<open>
  The \<^verbatim>\<open>forEach\<close> of \<^verbatim>\<open>tryFlushing\<close>: \<^verbatim>\<open>nn(op.opId)\<close> throws at the first op
  without an opId, after the ops before it were recorded.
\<close>

fun tryFlushing_forEach :: "Op list \<Rightarrow> 'r MachineContext \<Rightarrow> (unit, 'r MachineContext) outcome" where
  "tryFlushing_forEach [] s = Returned () s"
| "tryFlushing_forEach (op # rest) s =
     (case opId op of
        None \<Rightarrow> Thrown NonNullAssertion s
      | Some k \<Rightarrow>
          tryFlushing_forEach rest
            (s\<lparr>unacknowledgedOps := AList.update k op (unacknowledgedOps s)\<rparr>))"

definition tryFlushing :: "'r Env \<Rightarrow> 'r MachineContext \<Rightarrow> (unit, 'r MachineContext) outcome" where
  "tryFlushing E s =
     (case (if length (buffer_storageOperations (buffer s)) > 0
            then tryFlushing_forEach (buffer_storageOperations (buffer s)) s
            else Returned () s) of
        Thrown e s1 \<Rightarrow> Thrown e s1
      | Returned u s1 \<Rightarrow>
          if socket s1 = None \<or> socket s1 \<noteq> Some OPEN
          then Returned () (s1\<lparr>buffer := (buffer s1)\<lparr>buffer_storageOperations := []\<rparr>\<rparr>)
          else
            let elapsedTime = now E - lastFlushTime s1 in
            if elapsedTime > throttleDelay E
            then
              (let messages = flushDataToMessages s1 in
               if length messages = 0 then Returned () s1
               else (case send messages s1 of
                       Thrown e s2 \<Rightarrow> Thrown e s2
                     | Returned u2 s2 \<Rightarrow>
                         Returned ()
                           (s2\<lparr>buffer := \<lparr> buffer_me = None, buffer_messages = [],
                                             buffer_storageOperations = [] \<rparr>,
                               lastFlushTime := now E\<rparr>)))
            else
              Returned ()
                (s1\<lparr>timeoutHandles_flush :=
                      Some (throttleDelay E - (now E - lastFlushTime s1))\<rparr>))"

definition broadcastEvent :: "'r Env \<Rightarrow> Json \<Rightarrow> bool \<Rightarrow> 'r MachineContext \<Rightarrow> (unit, 'r MachineContext) outcome" where
  "broadcastEvent E event shouldQueueEventIfNotReady s =
     (if socket s = None \<and> \<not> shouldQueueEventIfNotReady then Returned () s
      else tryFlushing E
             (s\<lparr>buffer := (buffer s)\<lparr>buffer_messages :=
                   buffer_messages (buffer s) @ [BROADCAST_EVENT event]\<rparr>\<rparr>))"

definition dispatchOps :: "'r Env \<Rightarrow> Op list \<Rightarrow> 'r MachineContext \<Rightarrow> (unit, 'r MachineContext) outcome" where
  "dispatchOps E ops s =
     tryFlushing E
       (s\<lparr>buffer := (buffer s)\<lparr>buffer_storageOperations :=
             buffer_storageOperations (buffer s) @ ops\<rparr>\<rparr>)"

definition startLoadingStorage :: "'r Env \<Rightarrow> 'r MachineContext \<Rightarrow> (unit, 'r MachineContext) outcome" where
  "startLoadingStorage E s =
     (if \<not> getInitialStatePromise s
      then (case tryFlushing E
                   (s\<lparr>buffer := (buffer s)\<lparr>buffer_messages :=
                         buffer_messages (buffer s) @ [FETCH_STORAGE]\<rparr>\<rparr>) of
              Thrown e s1 \<Rightarrow> Thrown e s1
            | Returned u s1 \<Rightarrow> Returned () (s1\<lparr>getInitialStatePromise := True\<rparr>))
      else Returned () s)"

section \<open>The batch and history engine\<close>

text \<open>
  \<^verbatim>\<open>_addToRealUndoStack\<close>, without the leading underscore; \<^verbatim>\<open>shift()\<close> removes
  the batch at index 0.
\<close>

definition addToRealUndoStack :: "HistoryOp list \<Rightarrow> 'r MachineContext \<Rightarrow> 'r MachineContext" where
  "addToRealUndoStack historyOps s =
     (let s1 = (if length (undoStack s) \<ge> 50 then s\<lparr>undoStack := tl (undoStack s)\<rparr> else s)
      in s1\<lparr>undoStack := undoStack s1 @ [historyOps]\<rparr>)"

definition addToUndoStack :: "HistoryOp list \<Rightarrow> 'r MachineContext \<Rightarrow> 'r MachineContext" where
  "addToUndoStack historyOps s =
     (case pausedHistory s of
        Some paused \<Rightarrow> s\<lparr>pausedHistory := Some (historyOps @ paused)\<rparr>
      | None \<Rightarrow> addToRealUndoStack historyOps s)"

definition pauseHistory :: "'r MachineContext \<Rightarrow> 'r MachineContext" where
  "pauseHistory s = s\<lparr>pausedHistory := Some []\<rparr>"

definition resumeHistory :: "'r MachineContext \<Rightarrow> 'r MachineContext" where
  "resumeHistory s =
     (let historyOps = pausedHistory s;
          s1 = s\<lparr>pausedHistory := None\<rparr>
      in case historyOps of
           None \<Rightarrow> s1
         | Some h \<Rightarrow> if length h > 0 then addToRealUndoStack h s1 else s1)"

definition canUndo :: "'r MachineContext \<Rightarrow> bool" where
  "canUndo s = (length (undoStack s) > 0)"

definition canRedo :: "'r MachineContext \<Rightarrow> bool" where
  "canRedo s = (length (redoStack s) > 0)"

text \<open>\<^verbatim>\<open>obj[key]\<close>: \<^verbatim>\<open>undefined\<close> for a missing key.\<close>

definition presence_get :: "Presence \<Rightarrow> string \<Rightarrow> Json option" where
  "presence_get p k = (case map_of p k of None \<Rightarrow> None | Some v \<Rightarrow> v)"

text \<open>
  Modelled from the spec: \<^verbatim>\<open>MeRef.patch\<close> (refs/MeRef.ts is not among the
  sources). Section 4.6: \<open>patch(delta)\<close> shallow-merges the keys present in
  delta.
\<close>

definition me_patch :: "Presence \<Rightarrow> Presence \<Rightarrow> Presence" where
  "me_patch delta current = fold (\<lambda>(k, v) acc. AList.update k v acc) delta current"

text \<open>
  The first loop of \<^verbatim>\<open>updatePresence\<close>: keys whose value is \<^verbatim>\<open>undefined\<close>
  are skipped; the others go to the buffer, and their old values are kept.
\<close>

fun updatePresence_loop :: "Presence \<Rightarrow> Presence \<Rightarrow> Presence \<Rightarrow> Presence \<Rightarrow> Presence \<times> Presence" where
  "updatePresence_loop [] current bufdata oldValues = (bufdata, oldValues)"
| "updatePresence_loop ((key, overrideValue) # rest) current bufdata oldValues =
     (case overrideValue of
        None \<Rightarrow> updatePresence_loop rest current bufdata oldValues
      | Some v \<Rightarrow>
          updatePresence_loop rest current
            (AList.update key (Some v) bufdata)
            (AList.update key (presence_get current key) oldValues))"

fun buffered_data :: "BufferedMe \<Rightarrow> Presence" where
  "buffered_data (Partial d) = d"
| "buffered_data (Full d) = d"

fun set_buffered_data :: "BufferedMe \<Rightarrow> Presence \<Rightarrow> BufferedMe" where
  "set_buffered_data (Partial d) d' = Partial d'"
| "set_buffered_data (Full d) d' = Full d'"

definition updatePresence :: "'r Env \<Rightarrow> Presence \<Rightarrow> bool \<Rightarrow> 'r MachineContext \<Rightarrow> (unit, 'r MachineContext) outcome" where
  "updatePresence E patch addToHistory s =
     (let bme = (case buffer_me (buffer s) of None \<Rightarrow> Partial [] | Some b \<Rightarrow> b);
          (bufdata, oldValues) = updatePresence_loop patch (me s) (buffered_data bme) [];
          s1 = s\<lparr>buffer := (buffer s)\<lparr>buffer_me := Some (set_buffered_data bme bufdata)\<rparr>,
                 me := me_patch patch (me s)\<rparr>
      in case activeBatch s1 of
           Some b \<Rightarrow>
             Returned ()
               (if addToHistory
                then s1\<lparr>activeBatch :=
                       Some (b\<lparr>batch_reverseOps := PresenceOp oldValues # batch_reverseOps b\<rparr>)\<rparr>
                else s1)
         | None \<Rightarrow>
             (case tryFlushing E s1 of
                Thrown e s2 \<Rightarrow> Thrown e s2
              | Returned u s2 \<Rightarrow>
                  Returned ()
                    (if addToHistory then addToUndoStack [PresenceOp oldValues] s2 else s2)))"

section \<open>Applying ops\<close>

definition applyOp :: "'r Env \<Rightarrow> Op \<Rightarrow> OpSource \<Rightarrow> 'r \<Rightarrow> ApplyResult \<times> 'r" where
  "applyOp E op source pool =
     (if isAckOp E op then (NotModified, pool)
      else if optype op \<in> {DELETE_OBJECT_KEY, UPDATE_OBJECT, DELETE_CRDT}
      then (if \<not> has_node E pool (nodeid op) then (NotModified, pool)
            else node_apply E op (source = UNDOREDO_RECONNECT) pool)
      else if optype op = SET_PARENT_KEY
      then (if \<not> has_node E pool (nodeid op) then (NotModified, pool)
            else if parent_is_list E pool (nodeid op) then setChildKey E op source pool
            else (NotModified, pool))
      else (case parentId op of
              None \<Rightarrow> (NotModified, pool)
            | Some p \<Rightarrow>
                if \<not> has_node E pool p then (NotModified, pool)
                else attachChild E op source pool))"

text \<open>\<^verbatim>\<open>!op.opId\<close>: true for a missing opId and for the empty string.\<close>

definition falsy :: "string option \<Rightarrow> bool" where
  "falsy x = (x = None \<or> x = Some [])"

text \<open>The \<^verbatim>\<open>rawOps.map\<close> of \<^verbatim>\<open>applyOps\<close>, which runs before any op is applied.\<close>

fun assignOpIds :: "HistoryOp list \<Rightarrow> 'r MachineContext \<Rightarrow> (HistoryOp list, 'r MachineContext) outcome" where
  "assignOpIds [] s = Returned [] s"
| "assignOpIds (PresenceOp d # rest) s =
     (case assignOpIds rest s of
        Thrown e s1 \<Rightarrow> Thrown e s1
      | Returned done s1 \<Rightarrow> Returned (PresenceOp d # done) s1)"
| "assignOpIds (StorageOp op # rest) s =
     (if falsy (opId op)
      then (case generateOpId s of
              Thrown e s1 \<Rightarrow> Thrown e s1
            | Returned i s1 \<Rightarrow>
                (case assignOpIds rest s1 of
                   Thrown e s2 \<Rightarrow> Thrown e s2
                 | Returned done s2 \<Rightarrow> Returned (StorageOp (op\<lparr>opId := Some i\<rparr>) # done) s2))
      else (case assignOpIds rest s of
              Thrown e s1 \<Rightarrow> Thrown e s1
            | Returned done s1 \<Rightarrow> Returned (StorageOp op # done) s1))"

text \<open>
  The source chosen for a storage op: a local op is \<open>UNDOREDO_RECONNECT\<close>;
  for any other op \<^verbatim>\<open>unacknowledgedOps.delete(opId)\<close> runs, and the op is an
  \<open>ACK\<close> when the key was there, \<open>REMOTE\<close> otherwise.
\<close>

definition decideSource :: "bool \<Rightarrow> Op \<Rightarrow> 'r MachineContext \<Rightarrow> (OpSource, 'r MachineContext) outcome" where
  "decideSource isLocal op s =
     (if isLocal then Returned UNDOREDO_RECONNECT s
      else (case opId op of
              None \<Rightarrow> Thrown NonNullAssertion s
            | Some k \<Rightarrow>
                let deleted = (map_of (unacknowledgedOps s) k \<noteq> None) in
                Returned (if deleted then ACK else REMOTE)
                  (s\<lparr>unacknowledgedOps := AList.delete k (unacknowledgedOps s)\<rparr>)))"

text \<open>
  The \<^verbatim>\<open>for\<close> loop of \<^verbatim>\<open>applyOps\<close>, with \<^verbatim>\<open>output.reverse\<close> and
  \<^verbatim>\<open>createdNodeIds\<close> as accumulators.
\<close>

fun applyOps_loop :: "'r Env \<Rightarrow> bool \<Rightarrow> HistoryOp list \<Rightarrow> HistoryOp list \<Rightarrow> string list
    \<Rightarrow> 'r MachineContext \<Rightarrow> (HistoryOp list, 'r MachineContext) outcome" where
  "applyOps_loop E isLocal [] racc createdNodeIds s = Returned racc s"
| "applyOps_loop E isLocal (PresenceOp d # rest) racc createdNodeIds s =
     (let reverse = PresenceOp (fold (\<lambda>(k, v) acc. AList.update k (presence_get (me s) k) acc) d []);
          s1 = s\<lparr>me := me_patch d (me s)\<rparr>;
          s2 = s1\<lparr>buffer := (buffer s1)\<lparr>buffer_me :=
                  (case buffer_me (buffer s1) of
                     None \<Rightarrow> Some (Partial d)
                   | Some b \<Rightarrow>
                       Some (set_buffered_data b
                               (fold (\<lambda>(k, v) acc. AList.update k v acc) d (buffered_data b))))\<rparr>\<rparr>
      in applyOps_loop E isLocal rest (reverse # racc) createdNodeIds s2)"
| "applyOps_loop E isLocal (StorageOp op # rest) racc createdNodeIds s =
     (case decideSource isLocal op s of
        Thrown e s1 \<Rightarrow> Thrown e s1
      | Returned source s1 \<Rightarrow>
          (case applyOp E op source (nodes s1) of
             (NotModified, pool) \<Rightarrow>
               applyOps_loop E isLocal rest racc createdNodeIds (s1\<lparr>nodes := pool\<rparr>)
           | (Modified nodeId reverse, pool) \<Rightarrow>
               applyOps_loop E isLocal rest
                 (if \<not> (nodeId \<noteq> [] \<and> nodeId \<in> set createdNodeIds)
                  then map StorageOp reverse @ racc else racc)
                 (if optype op \<in> {CREATE_LIST, CREATE_MAP, CREATE_OBJECT}
                  then createdNodeIds @ [nodeid op] else createdNodeIds)
                 (s1\<lparr>nodes := pool\<rparr>)))"

definition applyOps :: "'r Env \<Rightarrow> HistoryOp list \<Rightarrow> bool \<Rightarrow> 'r MachineContext
    \<Rightarrow> (HistoryOp list \<times> HistoryOp list, 'r MachineContext) outcome" where
  "applyOps E rawOps isLocal s =
     (case assignOpIds rawOps s of
        Thrown e s1 \<Rightarrow> Thrown e s1
      | Returned ops s1 \<Rightarrow>
          (case applyOps_loop E isLocal ops [] [] s1 of
             Thrown e s2 \<Rightarrow> Thrown e s2
           | Returned reverse s2 \<Rightarrow> Returned (ops, reverse) s2))"

fun storage_ops_of :: "HistoryOp list \<Rightarrow> Op list" where
  "storage_ops_of [] = []"
| "storage_ops_of (StorageOp op # rest) = op # storage_ops_of rest"
| "storage_ops_of (PresenceOp d # rest) = storage_ops_of rest"

section \<open>Undo, redo, dispatch and batch\<close>

definition undo :: "'r Env \<Rightarrow> 'r MachineContext \<Rightarrow> (unit, 'r MachineContext) outcome" where
  "undo E s =
     (if activeBatch s \<noteq> None then Thrown (Error ''undo is not allowed during a batch'') s
      else if undoStack s = [] then Returned () s
      else
        let historyOps = last (undoStack s);
            s1 = s\<lparr>undoStack := butlast (undoStack s), pausedHistory := None\<rparr>
        in case applyOps E historyOps True s1 of
             Thrown e s2 \<Rightarrow> Thrown e s2
           | Returned (ops, reverse) s2 \<Rightarrow>
               tryFlushing E
                 (s2\<lparr>redoStack := redoStack s2 @ [reverse],
                     buffer := (buffer s2)\<lparr>buffer_storageOperations :=
                        buffer_storageOperations (buffer s2) @ storage_ops_of ops\<rparr>\<rparr>))"

definition redo :: "'r Env \<Rightarrow> 'r MachineContext \<Rightarrow> (unit, 'r MachineContext) outcome" where
  "redo E s =
     (if activeBatch s \<noteq> None then Thrown (Error ''redo is not allowed during a batch'') s
      else if redoStack s = [] then Returned () s
      else
        let historyOps = last (redoStack s);
            s1 = s\<lparr>redoStack := butlast (redoStack s), pausedHistory := None\<rparr>
        in case applyOps E historyOps True s1 of
             Thrown e s2 \<Rightarrow> Thrown e s2
           | Returned (ops, reverse) s2 \<Rightarrow>
               tryFlushing E
                 (s2\<lparr>undoStack := undoStack s2 @ [reverse],
                     buffer := (buffer s2)\<lparr>buffer_storageOperations :=
                        buffer_storageOperations (buffer s2) @ storage_ops_of ops\<rparr>\<rparr>))"

text \<open>\<^verbatim>\<open>pool.dispatch(ops, reverse, storageUpdates)\<close>.\<close>

definition dispatch :: "'r Env \<Rightarrow> Op list \<Rightarrow> Op list \<Rightarrow> 'r MachineContext \<Rightarrow> (unit, 'r MachineContext) outcome" where
  "dispatch E ops reverse s =
     (case activeBatch s of
        Some b \<Rightarrow>
          Returned ()
            (s\<lparr>activeBatch :=
                 Some (b\<lparr>batch_ops := batch_ops b @ ops,
                         batch_reverseOps := map StorageOp reverse @ batch_reverseOps b\<rparr>)\<rparr>)
      | None \<Rightarrow>
          (let s1 = addToUndoStack (map StorageOp reverse) s;
               s2 = s1\<lparr>redoStack := []\<rparr>
           in dispatchOps E ops s2))"

text \<open>
  \<^verbatim>\<open>batch(callback)\<close>. The callback is host code acting on the room. The
  \<^verbatim>\<open>finally\<close> block runs whether the callback returned or threw, and an
  exception of its own replaces the callback's. Reading \<^verbatim>\<open>reverseOps\<close> of a
  null batch is a TypeError.
\<close>

definition batch_finally :: "'r Env \<Rightarrow> 'r MachineContext \<Rightarrow> (unit, 'r MachineContext) outcome" where
  "batch_finally E s1 =
     (case activeBatch s1 of
        None \<Rightarrow> Thrown TypeError s1
      | Some currentBatch \<Rightarrow>
          (let s2 = s1\<lparr>activeBatch := None\<rparr>;
               s3 = (if length (batch_reverseOps currentBatch) > 0
                     then addToUndoStack (batch_reverseOps currentBatch) s2 else s2);
               s4 = (if length (batch_ops currentBatch) > 0
                     then s3\<lparr>redoStack := []\<rparr> else s3)
           in (case (if length (batch_ops currentBatch) > 0
                     then dispatchOps E (batch_ops currentBatch) s4
                     else Returned () s4) of
                 Thrown e s5 \<Rightarrow> Thrown e s5
               | Returned u s5 \<Rightarrow> tryFlushing E s5)))"

definition batch :: "'r Env \<Rightarrow> ('r MachineContext \<Rightarrow> ('a, 'r MachineContext) outcome)
    \<Rightarrow> 'r MachineContext \<Rightarrow> ('a, 'r MachineContext) outcome" where
  "batch E callback s =
     (if activeBatch s \<noteq> None then callback s
      else
        (case callback (s\<lparr>activeBatch := Some \<lparr> batch_ops = [], batch_reverseOps = [] \<rparr>\<rparr>) of
           Thrown e s1 \<Rightarrow>
             (case batch_finally E s1 of
                Thrown e2 s2 \<Rightarrow> Thrown e2 s2
              | Returned u s2 \<Rightarrow> Thrown e s2)
         | Returned x s1 \<Rightarrow>
             (case batch_finally E s1 of
                Thrown e2 s2 \<Rightarrow> Thrown e2 s2
              | Returned u s2 \<Rightarrow> Returned x s2)))"

section \<open>Initial storage and resending\<close>

text \<open>
  The loop of \<^verbatim>\<open>buildRootAndParentToChildren\<close>: the last root item wins, the
  other items are grouped under their parent id in arrival order.
\<close>

fun buildRootAndParentToChildren_loop :: "'r Env \<Rightarrow> IdTuple list \<Rightarrow> IdTuple option
    \<Rightarrow> (string option \<times> IdTuple list) list
    \<Rightarrow> IdTuple option \<times> (string option \<times> IdTuple list) list" where
  "buildRootAndParentToChildren_loop E [] rootItem parentToChildren = (rootItem, parentToChildren)"
| "buildRootAndParentToChildren_loop E ((i, crdt) # rest) rootItem parentToChildren =
     (if isRootCrdt E crdt
      then buildRootAndParentToChildren_loop E rest (Some (i, crdt)) parentToChildren
      else (case map_of parentToChildren (crdt_parentId crdt) of
              Some children \<Rightarrow>
                buildRootAndParentToChildren_loop E rest rootItem
                  (AList.update (crdt_parentId crdt) (children @ [(i, crdt)]) parentToChildren)
            | None \<Rightarrow>
                buildRootAndParentToChildren_loop E rest rootItem
                  (AList.update (crdt_parentId crdt) [(i, crdt)] parentToChildren)))"

definition buildRootAndParentToChildren :: "'r Env \<Rightarrow> IdTuple list
    \<Rightarrow> error + (IdTuple \<times> (string option \<times> IdTuple list) list)" where
  "buildRootAndParentToChildren E items =
     (case buildRootAndParentToChildren_loop E items None [] of
        (None, parentToChildren) \<Rightarrow> Inl (Error ''Root can't be null'')
      | (Some rootItem, parentToChildren) \<Rightarrow> Inr (rootItem, parentToChildren))"

text \<open>
  \<^verbatim>\<open>context.root = load(items)\<close>: the deserialised root object carries the
  id of the root item.
\<close>

definition load :: "'r Env \<Rightarrow> IdTuple list \<Rightarrow> 'r MachineContext \<Rightarrow> (unit, 'r MachineContext) outcome" where
  "load E items s =
     (case buildRootAndParentToChildren E items of
        Inl e \<Rightarrow> Thrown e s
      | Inr (rootItem, parentToChildren) \<Rightarrow>
          Returned ()
            (s\<lparr>nodes := deserialize E rootItem parentToChildren (nodes s),
               root := Some (fst rootItem)\<rparr>))"

text \<open>
  \<^verbatim>\<open>updateRoot\<close>: \<open>getTreesDiffOperations\<close> stands for serialising every
  current node and diffing against the incoming items.
\<close>

definition updateRoot :: "'r Env \<Rightarrow> IdTuple list \<Rightarrow> 'r MachineContext \<Rightarrow> (unit, 'r MachineContext) outcome" where
  "updateRoot E items s =
     (if root s = None then Returned () s
      else (case applyOps E (map StorageOp (getTreesDiffOperations E (nodes s) items)) False s of
              Thrown e s1 \<Rightarrow> Thrown e s1
            | Returned res s1 \<Rightarrow> Returned () s1))"

fun initialStorage_loop :: "'r Env \<Rightarrow> (string \<times> Json) list \<Rightarrow> 'r MachineContext
    \<Rightarrow> (unit, 'r MachineContext) outcome" where
  "initialStorage_loop E [] s = Returned () s"
| "initialStorage_loop E ((key, v) # rest) s =
     (if root_get_undefined E (nodes s) key
      then (case root_set E key v s of
              Thrown e s1 \<Rightarrow> Thrown e s1
            | Returned u s1 \<Rightarrow> initialStorage_loop E rest s1)
      else initialStorage_loop E rest s)"

definition createOrUpdateRootFromMessage :: "'r Env \<Rightarrow> IdTuple list \<Rightarrow> 'r MachineContext
    \<Rightarrow> (unit, 'r MachineContext) outcome" where
  "createOrUpdateRootFromMessage E items s =
     (if length items = 0
      then Thrown (Error ''Internal error: cannot load storage without items'') s
      else (case (if root s \<noteq> None then updateRoot E items s else load E items s) of
              Thrown e s1 \<Rightarrow> Thrown e s1
            | Returned u s1 \<Rightarrow> initialStorage_loop E (initialStorage E) s1))"



text \<open>The \<^verbatim>\<open>UPDATE_STORAGE\<close> branch of \<^verbatim>\<open>onMessage\<close>.\<close>

definition onMessage_UPDATE_STORAGE :: "'r Env \<Rightarrow> Op list \<Rightarrow> 'r MachineContext
    \<Rightarrow> (unit, 'r MachineContext) outcome" where
  "onMessage_UPDATE_STORAGE E ops s =
     (case applyOps E (map StorageOp ops) False s of
        Thrown e s1 \<Rightarrow> Thrown e s1
      | Returned res s1 \<Rightarrow> Returned () s1)"

section \<open>Auxiliary definitions for the proofs\<close>

text \<open>
  The ledger after the \<^verbatim>\<open>forEach\<close> of \<^verbatim>\<open>tryFlushing\<close> ran over the given ops:
  every op is stored under its opId, up to the first op without one.
\<close>

fun ledger_after :: "Op list \<Rightarrow> (string \<times> Op) list \<Rightarrow> (string \<times> Op) list" where
  "ledger_after [] l = l"
| "ledger_after (op # rest) l =
     (case opId op of None \<Rightarrow> l | Some k \<Rightarrow> ledger_after rest (AList.update k op l))"

text \<open>
  The parts of the context that applying ops leaves alone: both stacks, the
  paused history, the active batch, the socket, the frames sent so far and
  the root reference.
\<close>

definition same_control :: "'r MachineContext \<Rightarrow> 'r MachineContext \<Rightarrow> bool" where
  "same_control s s' \<longleftrightarrow>
     undoStack s' = undoStack s \<and> redoStack s' = redoStack s \<and>
     pausedHistory s' = pausedHistory s \<and> activeBatch s' = activeBatch s \<and>
     socket s' = socket s \<and> sent s' = sent s \<and> root s' = root s"

section \<open>Concrete rooms for the examples\<close>

text \<open>
  An environment whose pool is the list of the ops handed to the CRDT nodes,
  each with the source it arrived with (a node's \<^verbatim>\<open>_apply\<close> only learns
  whether the op is local). Every node exists, every apply modifies its node
  and gives the op back, without opId, as its own reverse. Used to run the
  theorems on concrete rooms.
\<close>

definition recording_env :: "int \<Rightarrow> int \<Rightarrow> (Op \<times> OpSource) list Env" where
  "recording_env delay t =
     \<lparr> throttleDelay = delay, now = t, initialStorage = [],
       isAckOp = (\<lambda>op. optype op = DELETE_CRDT \<and> nodeid op = ''ACK''),
       isRootCrdt = (\<lambda>c. crdt_parentId c = None),
       has_node = (\<lambda>pool i. True),
       parent_is_list = (\<lambda>pool i. True),
       node_apply = (\<lambda>op isLocal pool.
          (Modified (nodeid op) [op\<lparr>opId := None\<rparr>],
           pool @ [(op, if isLocal then UNDOREDO_RECONNECT else REMOTE)])),
       setChildKey = (\<lambda>op source pool.
          (Modified (nodeid op) [op\<lparr>opId := None\<rparr>], pool @ [(op, source)])),
       attachChild = (\<lambda>op source pool.
          (Modified (nodeid op) [op\<lparr>opId := None\<rparr>], pool @ [(op, source)])),
       getTreesDiffOperations = (\<lambda>pool items. []),
       deserialize = (\<lambda>rootItem children pool. pool),
       root_get_undefined = (\<lambda>pool key. False),
       root_set = (\<lambda>key v s. Returned () s) \<rparr>"


definition set_a :: Op where
  "set_a = \<lparr> optype = UPDATE_OBJECT, nodeid = ''0:0'', opId = Some ''1:0'',
             parentId = None, parentKey = None, payload = [(''a'', JNum 1)] \<rparr>"

definition set_b :: Op where
  "set_b = \<lparr> optype = UPDATE_OBJECT, nodeid = ''0:0'', opId = Some ''1:1'',
             parentId = None, parentKey = None, payload = [(''b'', JNum 2)] \<rparr>"

definition move_c :: Op where
  "move_c = \<lparr> optype = SET_PARENT_KEY, nodeid = ''0:3'', opId = Some ''1:2'',
              parentId = None, parentKey = Some ''!'', payload = [] \<rparr>"

definition move_d :: Op where
  "move_d = \<lparr> optype = SET_PARENT_KEY, nodeid = ''0:4'', opId = Some ''1:0'',
              parentId = None, parentKey = Some ''#'', payload = [] \<rparr>"



text \<open>A room that never connected, and the same room with an open socket.\<close>

definition offline_room :: "(Op \<times> OpSource) list MachineContext" where
  "offline_room = initial_context [(''cursor'', Some JNull)] []"

definition open_room :: "(Op \<times> OpSource) list MachineContext" where
  "open_room =
     offline_room\<lparr>socket := Some OPEN, connection := opened 1 False,
                   lastConnectionId := Some 1\<rparr>"

text \<open>A room whose socket exists but has not opened yet.\<close>

definition connecting_room :: "(Op \<times> OpSource) list MachineContext" where
  "connecting_room =
     offline_room\<lparr>socket := Some CONNECTING, connection := connecting 1 False\<rparr>"

text \<open>An open room with two ops sent and not yet acknowledged.\<close>

definition pending_room :: "(Op \<times> OpSource) list MachineContext" where
  "pending_room =
     open_room\<lparr>unacknowledgedOps := [(''1:0'', set_a), (''1:2'', move_c)],
                root := Some ''0:0'', opClock := 3,
                getInitialStatePromise := True,
                buffer := \<lparr> buffer_me = None, buffer_messages = [],
                             buffer_storageOperations = [] \<rparr>\<rparr>"


definition moving_room :: "(Op \<times> OpSource) list MachineContext" where
  "moving_room = pending_room\<lparr>unacknowledgedOps := [(''1:0'', move_d), (''1:2'', move_c)]\<rparr>"

text \<open>A room in the middle of a batch.\<close>

definition batching_room :: "(Op \<times> OpSource) list MachineContext" where
  "batching_room =
     open_room\<lparr>activeBatch := Some \<lparr> batch_ops = [], batch_reverseOps = [] \<rparr>,
                undoStack := [[StorageOp set_a]], redoStack := [[StorageOp set_b]]\<rparr>"

text \<open>An open room with history on both stacks, and the same with history paused.\<close>

definition history_room :: "(Op \<times> OpSource) list MachineContext" where
  "history_room =
     pending_room\<lparr>undoStack := [[StorageOp (set_a\<lparr>opId := None\<rparr>)]],
                   redoStack := [[StorageOp (set_b\<lparr>opId := None\<rparr>)]]\<rparr>"

definition paused_room :: "(Op \<times> OpSource) list MachineContext" where
  "paused_room = history_room\<lparr>pausedHistory := Some [PresenceOp [(''x'', None)]]\<rparr>"


text \<open>A room with a presence keyframe, two queued messages and one storage op to flush.\<close>

definition loaded_room :: "(Op \<times> OpSource) list MachineContext" where
  "loaded_room =
     open_room\<lparr>buffer := \<lparr> buffer_me = Some (Full [(''cursor'', Some JNull)]),
                             buffer_messages = [BROADCAST_EVENT (JStr ''hi''), FETCH_STORAGE],
                             buffer_storageOperations = [set_a] \<rparr>\<rparr>"

text \<open>
  A sequence of calls made one after the other by the host; it ends at the
  first call that throws.
\<close>

fun run_calls :: "('s \<Rightarrow> (unit, 's) outcome) list \<Rightarrow> 's \<Rightarrow> (unit, 's) outcome" where
  "run_calls [] s = Returned () s"
| "run_calls (call # calls) s =
     (case call s of
        Thrown e s1 \<Rightarrow> Thrown e s1
      | Returned u s1 \<Rightarrow> run_calls calls s1)"

text \<open>
  Fifty times \<^verbatim>\<open>updatePresence({x: i}, {addToHistory: true})\<close>, then
  \<^verbatim>\<open>undo()\<close>, one more such update, and \<^verbatim>\<open>redo()\<close>.
\<close>

definition fifty_updates :: "((Op \<times> OpSource) list MachineContext
    \<Rightarrow> (unit, (Op \<times> OpSource) list MachineContext) outcome) list" where
  "fifty_updates =
     map (\<lambda>i. updatePresence (recording_env 100 1000) [(''x'', Some (JNum (int i)))] True)
       [0..<50]"

definition update_between_undo_and_redo :: "((Op \<times> OpSource) list MachineContext
    \<Rightarrow> (unit, (Op \<times> OpSource) list MachineContext) outcome) list" where
  "update_between_undo_and_redo =
     fifty_updates @
     [undo (recording_env 100 1000),
      updatePresence (recording_env 100 1000) [(''x'', Some (JNum 50))] True,
      redo (recording_env 100 1000)]"

section \<open>The flush pipeline: what it changes and what it keeps\<close>

lemma tryFlushing_forEach_state:
  "state_of (tryFlushing_forEach ops s) =
     s\<lparr>unacknowledgedOps := ledger_after ops (unacknowledgedOps s)\<rparr>"
  by (induction ops arbitrary: s) (simp_all split: option.split)

lemma tryFlushing_forEach_returned:
  "\<forall>op\<in>set ops. opId op \<noteq> None \<Longrightarrow> returned (tryFlushing_forEach ops s)"
  by (induction ops arbitrary: s) (auto split: option.split)

lemma tryFlushing_forEach_Returned:
  assumes "\<forall>op\<in>set ops. opId op \<noteq> None"
  shows "tryFlushing_forEach ops s =
           Returned () (s\<lparr>unacknowledgedOps := ledger_after ops (unacknowledgedOps s)\<rparr>)"
proof -
  have "returned (tryFlushing_forEach ops s)"
    using assms by (rule tryFlushing_forEach_returned)
  then obtain s' where "tryFlushing_forEach ops s = Returned () s'"
    by (cases "tryFlushing_forEach ops s") auto
  with tryFlushing_forEach_state [of ops s] show ?thesis by simp
qed

lemma ledger_after_other:
  "\<forall>op\<in>set ops. opId op \<noteq> Some k \<Longrightarrow> map_of (ledger_after ops l) k = map_of l k"
  by (induction ops arbitrary: l) (auto split: option.split simp: update_conv')

lemma ledger_after_lookup:
  assumes "\<forall>op\<in>set ops. opId op \<noteq> None" and "op \<in> set ops" and "opId op = Some k"
    and "\<forall>op'\<in>set ops. opId op' = Some k \<longrightarrow> op' = op"
  shows "map_of (ledger_after ops l) k = Some op"
  using assms
proof (induction ops arbitrary: l)
  case Nil
  then show ?case by simp
next
  case (Cons a rest)
  from Cons.prems(1) obtain ka where ka: "opId a = Some ka" by auto
  have step: "ledger_after (a # rest) l = ledger_after rest (AList.update ka a l)"
    using ka by simp
  show ?case
  proof (cases "op \<in> set rest")
    case True
    have "map_of (ledger_after rest (AList.update ka a l)) k = Some op"
    proof (rule Cons.IH)
      show "\<forall>op\<in>set rest. opId op \<noteq> None" using Cons.prems(1) by simp
      show "op \<in> set rest" by (rule True)
      show "opId op = Some k" by (rule Cons.prems(3))
      show "\<forall>op'\<in>set rest. opId op' = Some k \<longrightarrow> op' = op" using Cons.prems(4) by simp
    qed
    then show ?thesis by (simp only: step)
  next
    case False
    with Cons.prems(2) have a: "a = op" by simp
    then have kk: "ka = k" using ka Cons.prems(3) by simp
    have "\<forall>op'\<in>set rest. opId op' \<noteq> Some k"
      using Cons.prems(4) False by auto
    then have "map_of (ledger_after rest (AList.update k op l)) k = map_of (AList.update k op l) k"
      by (rule ledger_after_other)
    also have "\<dots> = Some op" by (simp add: update_conv')
    finally have "map_of (ledger_after rest (AList.update ka a l)) k = Some op"
      using a kk by simp
    then show ?thesis by (simp only: step)
  qed
qed

text \<open>\<^verbatim>\<open>tryFlushing\<close> with the effects of \<^verbatim>\<open>send\<close> written out.\<close>

lemma tryFlushing_alt:
  "tryFlushing E s =
     (case tryFlushing_forEach (buffer_storageOperations (buffer s)) s of
        Thrown e s1 \<Rightarrow> Thrown e s1
      | Returned u s1 \<Rightarrow>
          if socket s1 \<noteq> Some OPEN
          then Returned () (s1\<lparr>buffer := (buffer s1)\<lparr>buffer_storageOperations := []\<rparr>\<rparr>)
          else if now E - lastFlushTime s1 > throttleDelay E
          then (if flushDataToMessages s1 = [] then Returned () s1
                else Returned ()
                       (s1\<lparr>sent := sent s1 @ [flushDataToMessages s1],
                           buffer := \<lparr> buffer_me = None, buffer_messages = [],
                                        buffer_storageOperations = [] \<rparr>,
                           lastFlushTime := now E\<rparr>))
          else Returned ()
                 (s1\<lparr>timeoutHandles_flush :=
                       Some (throttleDelay E - (now E - lastFlushTime s1))\<rparr>))"
  by (cases "buffer_storageOperations (buffer s)")
     (auto simp: tryFlushing_def send_def Let_def split: outcome.splits option.splits)

lemma flushDataToMessages_cong:
  "buffer s' = buffer s \<Longrightarrow> flushDataToMessages s' = flushDataToMessages s"
  unfolding flushDataToMessages_def by (simp cong: if_cong)

lemma tryFlushing_forEach_cases:
  "tryFlushing_forEach ops s =
      Returned () (s\<lparr>unacknowledgedOps := ledger_after ops (unacknowledgedOps s)\<rparr>) \<or>
   (\<exists>e. tryFlushing_forEach ops s =
      Thrown e (s\<lparr>unacknowledgedOps := ledger_after ops (unacknowledgedOps s)\<rparr>))"
  using tryFlushing_forEach_state [of ops s]
  by (cases "tryFlushing_forEach ops s") simp_all

lemma tryFlushing_frame:
  "undoStack (state_of (tryFlushing E s)) = undoStack s"
  "redoStack (state_of (tryFlushing E s)) = redoStack s"
  "pausedHistory (state_of (tryFlushing E s)) = pausedHistory s"
  "activeBatch (state_of (tryFlushing E s)) = activeBatch s"
  "socket (state_of (tryFlushing E s)) = socket s"
  "nodes (state_of (tryFlushing E s)) = nodes s"
  "unacknowledgedOps (state_of (tryFlushing E s)) =
     ledger_after (buffer_storageOperations (buffer s)) (unacknowledgedOps s)"
  using tryFlushing_forEach_cases [of "buffer_storageOperations (buffer s)" s]
  by (auto simp: tryFlushing_alt)

lemma foldl_push: "foldl push xs ys = xs @ ys"
  by (induction ys arbitrary: xs) (simp_all add: push_def)

lemma flushDataToMessages_Nil:
  "flushDataToMessages s = [] \<Longrightarrow> buffer_storageOperations (buffer s) = []"
  by (simp add: flushDataToMessages_def foldl_push push_def Let_def split: if_splits)

lemma tryFlushing_returned:
  "\<forall>op\<in>set (buffer_storageOperations (buffer s)). opId op \<noteq> None \<Longrightarrow>
   returned (tryFlushing E s)"
  by (simp add: tryFlushing_alt tryFlushing_forEach_Returned)

section \<open>Applying ops: what it changes and what it keeps\<close>

lemma same_control_refl: "same_control s s"
  by (simp add: same_control_def)

lemma same_control_trans:
  "same_control s s1 \<Longrightarrow> same_control s1 s2 \<Longrightarrow> same_control s s2"
  by (simp add: same_control_def)

lemma generateOpId_same_control: "same_control s (state_of (generateOpId s))"
  by (simp add: generateOpId_def same_control_def split: sum.split)

lemma generateOpId_ledger:
  "unacknowledgedOps (state_of (generateOpId s)) = unacknowledgedOps s"
  by (simp add: generateOpId_def split: sum.split)

lemma assignOpIds_same_control: "same_control s (state_of (assignOpIds ops s))"
proof (induction ops s rule: assignOpIds.induct)
  case (1 s)
  then show ?case by (simp add: same_control_refl)
next
  case (2 d rest s)
  then show ?case by (cases "assignOpIds rest s") simp_all
next
  case (3 op rest s)
  show ?case
  proof (cases "falsy (opId op)")
    case False
    with 3(2) show ?thesis by (cases "assignOpIds rest s") simp_all
  next
    case True
    show ?thesis
    proof (cases "generateOpId s")
      case (Thrown e s1)
      with generateOpId_same_control [of s] True show ?thesis by simp
    next
      case (Returned i s1)
      with generateOpId_same_control [of s] have a: "same_control s s1" by simp
      from 3(1) [OF True Returned] have b: "same_control s1 (state_of (assignOpIds rest s1))" .
      from same_control_trans [OF a b] True Returned show ?thesis
        by (cases "assignOpIds rest s1") simp_all
    qed
  qed
qed

lemma assignOpIds_ledger:
  "unacknowledgedOps (state_of (assignOpIds ops s)) = unacknowledgedOps s"
proof (induction ops s rule: assignOpIds.induct)
  case (1 s)
  then show ?case by simp
next
  case (2 d rest s)
  then show ?case by (cases "assignOpIds rest s") simp_all
next
  case (3 op rest s)
  show ?case
  proof (cases "falsy (opId op)")
    case False
    with 3(2) show ?thesis by (cases "assignOpIds rest s") simp_all
  next
    case True
    show ?thesis
    proof (cases "generateOpId s")
      case (Thrown e s1)
      with generateOpId_ledger [of s] True show ?thesis by simp
    next
      case (Returned i s1)
      with generateOpId_ledger [of s] have a: "unacknowledgedOps s1 = unacknowledgedOps s" by simp
      from 3(1) [OF True Returned] a True Returned show ?thesis
        by (cases "assignOpIds rest s1") simp_all
    qed
  qed
qed

text \<open>Ops that already carry an opId pass through unchanged and nothing is generated.\<close>

lemma assignOpIds_identity:
  "\<forall>op\<in>set ops. \<not> falsy (opId op) \<Longrightarrow>
   assignOpIds (map StorageOp ops) s = Returned (map StorageOp ops) s"
  by (induction ops) simp_all

lemma storage_ops_of_map: "storage_ops_of (map StorageOp ops) = ops"
  by (induction ops) simp_all

lemma decideSource_local: "decideSource True op s = Returned UNDOREDO_RECONNECT s"
  by (simp add: decideSource_def)

lemma decideSource_same_control: "same_control s (state_of (decideSource isLocal op s))"
  by (simp add: decideSource_def same_control_def Let_def split: option.split)

lemma applyOps_loop_same_control:
  "same_control s (state_of (applyOps_loop E isLocal ops racc cr s))"
proof (induction E isLocal ops racc cr s rule: applyOps_loop.induct)
  case (1 E isLocal racc cr s)
  then show ?case by (simp add: same_control_refl)
next
  case (2 E isLocal d rest racc cr s)
  show ?case
    using same_control_trans [OF _ 2 [OF refl refl refl]]
    by (simp add: same_control_def Let_def)
next
  case (3 E isLocal op rest racc cr s)
  show ?case
  proof (cases "decideSource isLocal op s")
    case (Thrown e s1)
    with decideSource_same_control [of s isLocal op] show ?thesis by simp
  next
    case (Returned source s1)
    with decideSource_same_control [of s isLocal op] have a: "same_control s s1" by simp
    obtain res pool where ap: "applyOp E op source (nodes s1) = (res, pool)"
      by (cases "applyOp E op source (nodes s1)")
    have b: "same_control s (s1\<lparr>nodes := pool\<rparr>)"
      using a by (simp add: same_control_def)
    show ?thesis
    proof (cases res)
      case NotModified
      from 3(1) [OF Returned ap [symmetric] NotModified]
      show ?thesis using Returned ap NotModified same_control_trans [OF b] by simp
    next
      case (Modified nodeId reverse)
      from 3(2) [OF Returned ap [symmetric] Modified]
      show ?thesis using Returned ap Modified same_control_trans [OF b] by simp
    qed
  qed
qed

lemma applyOps_same_control: "same_control s (state_of (applyOps E ops isLocal s))"
proof (cases "assignOpIds ops s")
  case (Thrown e s1)
  with assignOpIds_same_control [of s ops] show ?thesis by (simp add: applyOps_def)
next
  case (Returned ops' s1)
  with assignOpIds_same_control [of s ops] have a: "same_control s s1" by simp
  have b: "same_control s1 (state_of (applyOps_loop E isLocal ops' [] [] s1))"
    by (rule applyOps_loop_same_control)
  from same_control_trans [OF a b] Returned show ?thesis
    by (cases "applyOps_loop E isLocal ops' [] [] s1") (simp_all add: applyOps_def)
qed

lemma addToRealUndoStack_fields:
  "redoStack (addToRealUndoStack h s) = redoStack s"
  "pausedHistory (addToRealUndoStack h s) = pausedHistory s"
  "activeBatch (addToRealUndoStack h s) = activeBatch s"
  "buffer (addToRealUndoStack h s) = buffer s"
  "unacknowledgedOps (addToRealUndoStack h s) = unacknowledgedOps s"
  by (simp_all add: addToRealUndoStack_def Let_def)

lemma addToUndoStack_fields:
  "redoStack (addToUndoStack h s) = redoStack s"
  "activeBatch (addToUndoStack h s) = activeBatch s"
  "buffer (addToUndoStack h s) = buffer s"
  "unacknowledgedOps (addToUndoStack h s) = unacknowledgedOps s"
  by (simp_all add: addToUndoStack_def addToRealUndoStack_fields split: option.split)

lemma dispatchOps_redoStack:
  "redoStack (state_of (dispatchOps E ops s)) = redoStack s"
  by (simp add: dispatchOps_def tryFlushing_frame)

lemma undo_state:
  assumes "activeBatch s = None" and "undoStack s \<noteq> []"
  shows "pausedHistory (state_of (undo E s)) = None"
    and "undoStack (state_of (undo E s)) = butlast (undoStack s)"
    and "\<exists>tail. redoStack (state_of (undo E s)) = redoStack s @ tail"
    and "applyOps E (last (undoStack s)) True
           (s\<lparr>undoStack := butlast (undoStack s), pausedHistory := None\<rparr>)
           = Returned (ops, reverse) s2 \<Longrightarrow>
         redoStack (state_of (undo E s)) = redoStack s @ [reverse]"
proof -
  let ?s1 = "s\<lparr>undoStack := butlast (undoStack s), pausedHistory := None\<rparr>"
  let ?r = "applyOps E (last (undoStack s)) True ?s1"
  have sc: "same_control ?s1 (state_of ?r)" by (rule applyOps_same_control)
  show "pausedHistory (state_of (undo E s)) = None"
    using assms sc
    by (cases ?r) (auto simp: undo_def Let_def tryFlushing_frame same_control_def)
  show "undoStack (state_of (undo E s)) = butlast (undoStack s)"
    using assms sc
    by (cases ?r) (auto simp: undo_def Let_def tryFlushing_frame same_control_def)
  show "\<exists>tail. redoStack (state_of (undo E s)) = redoStack s @ tail"
    using assms sc
    by (cases ?r) (auto simp: undo_def Let_def tryFlushing_frame same_control_def)
  show "redoStack (state_of (undo E s)) = redoStack s @ [reverse]"
    if "?r = Returned (ops, reverse) s2"
    using assms sc that
    by (auto simp: undo_def Let_def tryFlushing_frame same_control_def)
qed

lemma redo_state:
  assumes "activeBatch s = None" and "redoStack s \<noteq> []"
  shows "pausedHistory (state_of (redo E s)) = None"
    and "redoStack (state_of (redo E s)) = butlast (redoStack s)"
    and "\<exists>tail. undoStack (state_of (redo E s)) = undoStack s @ tail"
    and "applyOps E (last (redoStack s)) True
           (s\<lparr>redoStack := butlast (redoStack s), pausedHistory := None\<rparr>)
           = Returned (ops, reverse) s2 \<Longrightarrow>
         undoStack (state_of (redo E s)) = undoStack s @ [reverse]"
proof -
  let ?s1 = "s\<lparr>redoStack := butlast (redoStack s), pausedHistory := None\<rparr>"
  let ?r = "applyOps E (last (redoStack s)) True ?s1"
  have sc: "same_control ?s1 (state_of ?r)" by (rule applyOps_same_control)
  show "pausedHistory (state_of (redo E s)) = None"
    using assms sc
    by (cases ?r) (auto simp: redo_def Let_def tryFlushing_frame same_control_def)
  show "redoStack (state_of (redo E s)) = butlast (redoStack s)"
    using assms sc
    by (cases ?r) (auto simp: redo_def Let_def tryFlushing_frame same_control_def)
  show "\<exists>tail. undoStack (state_of (redo E s)) = undoStack s @ tail"
    using assms sc
    by (cases ?r) (auto simp: redo_def Let_def tryFlushing_frame same_control_def)
  show "undoStack (state_of (redo E s)) = undoStack s @ [reverse]"
    if "?r = Returned (ops, reverse) s2"
    using assms sc that
    by (auto simp: redo_def Let_def tryFlushing_frame same_control_def)
qed

lemma resumeHistory_idle:
  "pausedHistory s = None \<Longrightarrow> undoStack (resumeHistory s) = undoStack s"
  by (simp add: resumeHistory_def)

lemma batch_finally_redoStack:
  assumes "activeBatch s1 = Some b" and "batch_ops b \<noteq> []"
  shows "redoStack (state_of (batch_finally E s1)) = []"
proof -
  let ?s2 = "s1\<lparr>activeBatch := None\<rparr>"
  let ?s3 = "if length (batch_reverseOps b) > 0 then addToUndoStack (batch_reverseOps b) ?s2 else ?s2"
  let ?s4 = "?s3\<lparr>redoStack := []\<rparr>"
  have d: "redoStack (state_of (dispatchOps E (batch_ops b) ?s4)) = []"
    by (simp add: dispatchOps_redoStack)
  show ?thesis
  proof (cases "dispatchOps E (batch_ops b) ?s4")
    case (Returned u s5)
    with d have "redoStack s5 = []" by simp
    then have "redoStack (state_of (tryFlushing E s5)) = []"
      by (simp add: tryFlushing_frame)
    with assms Returned show ?thesis
      by (simp add: batch_finally_def Let_def)
  next
    case (Thrown e s5)
    with d assms show ?thesis
      by (simp add: batch_finally_def Let_def)
  qed
qed

lemma batch_state:
  "activeBatch s = None \<Longrightarrow>
   state_of (batch E callback s) =
     state_of (batch_finally E
       (state_of (callback (s\<lparr>activeBatch := Some \<lparr> batch_ops = [], batch_reverseOps = [] \<rparr>\<rparr>))))"
  by (simp add: batch_def split: outcome.split)

lemma dispatch_no_batch:
  assumes "activeBatch s = None"
  shows "redoStack (state_of (dispatch E ops reverse s)) = []"
    and "unacknowledgedOps (state_of (dispatch E ops reverse s)) =
           ledger_after (buffer_storageOperations (buffer s) @ ops) (unacknowledgedOps s)"
    and "\<forall>op\<in>set (buffer_storageOperations (buffer s) @ ops). opId op \<noteq> None \<Longrightarrow>
           returned (dispatch E ops reverse s)"
  using assms
  by (simp_all add: dispatch_def Let_def dispatchOps_def tryFlushing_frame
        tryFlushing_returned addToUndoStack_fields)

text \<open>A key that is not in the ledger does not come back while ops are applied.\<close>

lemma decideSource_absent:
  "map_of (unacknowledgedOps s) k = None \<Longrightarrow>
   map_of (unacknowledgedOps (state_of (decideSource isLocal op s))) k = None"
  by (simp add: decideSource_def Let_def delete_conv' split: option.split)

lemma applyOps_loop_absent:
  "map_of (unacknowledgedOps s) k = None \<Longrightarrow>
   map_of (unacknowledgedOps (state_of (applyOps_loop E isLocal ops racc cr s))) k = None"
proof (induction E isLocal ops racc cr s rule: applyOps_loop.induct)
  case (1 E isLocal racc cr s)
  then show ?case by simp
next
  case (2 E isLocal d rest racc cr s)
  show ?case
    using 2(1) [OF refl refl refl] 2(2) by (simp add: Let_def)
next
  case (3 E isLocal op rest racc cr s)
  show ?case
  proof (cases "decideSource isLocal op s")
    case (Thrown e s1)
    with decideSource_absent [OF 3(3), of isLocal op] show ?thesis by simp
  next
    case (Returned source s1)
    with decideSource_absent [OF 3(3), of isLocal op]
    have a: "map_of (unacknowledgedOps s1) k = None" by simp
    obtain res pool where ap: "applyOp E op source (nodes s1) = (res, pool)"
      by (cases "applyOp E op source (nodes s1)")
    have b: "map_of (unacknowledgedOps (s1\<lparr>nodes := pool\<rparr>)) k = None"
      using a by simp
    show ?thesis
    proof (cases res)
      case NotModified
      from 3(1) [OF Returned ap [symmetric] NotModified b]
      show ?thesis using Returned ap NotModified by simp
    next
      case (Modified nodeId reverse)
      from 3(2) [OF Returned ap [symmetric] Modified b]
      show ?thesis using Returned ap Modified by simp
    qed
  qed
qed

lemma decideSource_remote:
  "opId op = Some k \<Longrightarrow>
   decideSource False op s =
     Returned (if map_of (unacknowledgedOps s) k \<noteq> None then ACK else REMOTE)
       (s\<lparr>unacknowledgedOps := AList.delete k (unacknowledgedOps s)\<rparr>)"
  by (simp add: decideSource_def Let_def)

lemma applyOps_loop_acked:
  "applyOps_loop E False ops racc cr s = Returned r s' \<Longrightarrow>
   StorageOp op \<in> set ops \<Longrightarrow> opId op = Some k \<Longrightarrow>
   map_of (unacknowledgedOps s') k = None"
proof (induction E "False" ops racc cr s rule: applyOps_loop.induct)
  case (1 E racc cr s)
  then show ?case by simp
next
  case (2 E d rest racc cr s)
  from 2(2) 2(3) 2(4) show ?case
    using 2(1) [OF refl refl refl] by (simp add: Let_def)
next
  case (3 E a rest racc cr s)
  show ?case
  proof (cases "decideSource False a s")
    case (Thrown e s1)
    with 3(3) show ?thesis by simp
  next
    case (Returned source s1)
    obtain res pool where ap: "applyOp E a source (nodes s1) = (res, pool)"
      by (cases "applyOp E a source (nodes s1)")
    let ?racc = "case res of NotModified \<Rightarrow> racc
                 | Modified nodeId reverse \<Rightarrow>
                     (if \<not> (nodeId \<noteq> [] \<and> nodeId \<in> set cr)
                      then map StorageOp reverse @ racc else racc)"
    let ?cr = "case res of NotModified \<Rightarrow> cr
                 | Modified nodeId reverse \<Rightarrow>
                     (if optype a \<in> {CREATE_LIST, CREATE_MAP, CREATE_OBJECT}
                      then cr @ [nodeid a] else cr)"
    have step: "applyOps_loop E False (StorageOp a # rest) racc cr s =
                applyOps_loop E False rest ?racc ?cr (s1\<lparr>nodes := pool\<rparr>)"
      using Returned ap by (cases res) simp_all
    have rest_eq: "applyOps_loop E False rest ?racc ?cr (s1\<lparr>nodes := pool\<rparr>) = Returned r s'"
      using 3(3) unfolding step .
    show ?thesis
    proof (cases "StorageOp op \<in> set rest")
      case True
      show ?thesis
      proof (cases res)
        case NotModified
        from rest_eq NotModified
        have "applyOps_loop E False rest racc cr (s1\<lparr>nodes := pool\<rparr>) = Returned r s'"
          by simp
        from 3(1) [OF Returned ap [symmetric] NotModified this True 3(5)]
        show ?thesis .
      next
        case (Modified nodeId reverse)
        from rest_eq Modified
        have "applyOps_loop E False rest
                (if \<not> (nodeId \<noteq> [] \<and> nodeId \<in> set cr)
                 then map StorageOp reverse @ racc else racc)
                (if optype a \<in> {CREATE_LIST, CREATE_MAP, CREATE_OBJECT}
                 then cr @ [nodeid a] else cr)
                (s1\<lparr>nodes := pool\<rparr>) = Returned r s'"
          by simp
        from 3(2) [OF Returned ap [symmetric] Modified this True 3(5)]
        show ?thesis .
      qed
    next
      case False
      with 3(4) have "a = op" by simp
      with 3(5) Returned have "s1 = s\<lparr>unacknowledgedOps := AList.delete k (unacknowledgedOps s)\<rparr>"
        by (simp add: decideSource_remote)
      then have "map_of (unacknowledgedOps (s1\<lparr>nodes := pool\<rparr>)) k = None"
        by (simp add: delete_conv')
      from applyOps_loop_absent [OF this, of E False rest ?racc ?cr]
      show ?thesis unfolding rest_eq by simp
    qed
  qed
qed

lemma applyOps_loop_returned:
  "isLocal \<or> (\<forall>op. StorageOp op \<in> set ops \<longrightarrow> opId op \<noteq> None) \<Longrightarrow>
   returned (applyOps_loop E isLocal ops racc cr s)"
proof (induction E isLocal ops racc cr s rule: applyOps_loop.induct)
  case (1 E isLocal racc cr s)
  then show ?case by simp
next
  case (2 E isLocal d rest racc cr s)
  show ?case
    using 2(1) [OF refl refl refl] 2(2) by (simp add: Let_def)
next
  case (3 E isLocal op rest racc cr s)
  have "\<exists>source s1. decideSource isLocal op s = Returned source s1"
  proof (cases isLocal)
    case True
    then show ?thesis by (simp add: decideSource_def)
  next
    case False
    with 3(3) obtain k where "opId op = Some k" by auto
    with False show ?thesis by (simp add: decideSource_def Let_def)
  qed
  then obtain source s1 where ds: "decideSource isLocal op s = Returned source s1"
    by blast
  obtain res pool where ap: "applyOp E op source (nodes s1) = (res, pool)"
    by (cases "applyOp E op source (nodes s1)")
  have rest: "isLocal \<or> (\<forall>op. StorageOp op \<in> set rest \<longrightarrow> opId op \<noteq> None)"
    using 3(3) by auto
  show ?case
  proof (cases res)
    case NotModified
    from 3(1) [OF ds ap [symmetric] NotModified rest]
    show ?thesis using ds ap NotModified by simp
  next
    case (Modified nodeId reverse)
    from 3(2) [OF ds ap [symmetric] Modified rest]
    show ?thesis using ds ap Modified by simp
  qed
qed


section \<open>The unacknowledged-op ledger\<close>

lemma onMessage_UPDATE_STORAGE_single:
  assumes "opId a = Some k" and "k \<noteq> []" and "map_of (unacknowledgedOps s) k \<noteq> None"
  shows "onMessage_UPDATE_STORAGE E [a] s =
           Returned ()
             (s\<lparr>unacknowledgedOps := AList.delete k (unacknowledgedOps s),
                nodes := snd (applyOp E a ACK (nodes s))\<rparr>)"
proof -
  have nf: "\<not> falsy (opId a)" using assms(1,2) by (simp add: falsy_def)
  have ds: "decideSource False a s =
              Returned ACK (s\<lparr>unacknowledgedOps := AList.delete k (unacknowledgedOps s)\<rparr>)"
    using assms(1,3) by (simp add: decideSource_remote)
  obtain res pool where ap: "applyOp E a ACK (nodes s) = (res, pool)"
    by (cases "applyOp E a ACK (nodes s)")
  show ?thesis
    using nf ds ap
    by (cases res) (simp_all add: onMessage_UPDATE_STORAGE_def applyOps_def)
qed

lemma onMessage_UPDATE_STORAGE_all_acked:
  assumes "\<forall>a\<in>set acks. \<not> falsy (opId a)"
  shows "returned (onMessage_UPDATE_STORAGE E acks s)"
    and "\<forall>a\<in>set acks. \<forall>k. opId a = Some k \<longrightarrow>
           map_of (unacknowledgedOps (state_of (onMessage_UPDATE_STORAGE E acks s))) k = None"
proof -
  have asg: "assignOpIds (map StorageOp acks) s = Returned (map StorageOp acks) s"
    using assms by (rule assignOpIds_identity)
  have "returned (applyOps_loop E False (map StorageOp acks) [] [] s)"
  proof (rule applyOps_loop_returned)
    show "False \<or> (\<forall>op. StorageOp op \<in> set (map StorageOp acks) \<longrightarrow> opId op \<noteq> None)"
      using assms by (auto simp: falsy_def)
  qed
  then obtain reverse s2
    where l: "applyOps_loop E False (map StorageOp acks) [] [] s = Returned reverse s2"
    by (cases "applyOps_loop E False (map StorageOp acks) [] [] s") auto
  have st: "onMessage_UPDATE_STORAGE E acks s = Returned () s2"
    using asg l by (simp add: onMessage_UPDATE_STORAGE_def applyOps_def)
  then show "returned (onMessage_UPDATE_STORAGE E acks s)" by simp
  show "\<forall>a\<in>set acks. \<forall>k. opId a = Some k \<longrightarrow>
           map_of (unacknowledgedOps (state_of (onMessage_UPDATE_STORAGE E acks s))) k = None"
  proof (intro ballI allI impI)
    fix a k assume "a \<in> set acks" and "opId a = Some k"
    then have "StorageOp a \<in> set (map StorageOp acks)" by simp
    from applyOps_loop_acked [OF l this \<open>opId a = Some k\<close>] st
    show "map_of (unacknowledgedOps (state_of (onMessage_UPDATE_STORAGE E acks s))) k = None"
      by simp
  qed
qed

text \<open>
  Claim C1. Every \<^verbatim>\<open>tryFlushing\<close> records the buffered storage ops in the
  ledger, each under its opId, whatever the state of the socket; so a local
  storage op is in the ledger as soon as \<^verbatim>\<open>pool.dispatch\<close> outside a batch
  has run. The ops carry an opId, and no other buffered op carries the same
  one. When \<^verbatim>\<open>applyOps\<close> then meets a
  non-local op whose opId is in the ledger, at any place in the list and
  whatever was collected before it, the source is \<open>ACK\<close>, the op is handed to
  \<^verbatim>\<open>applyOp\<close> with it, the entry is gone and the loop goes on with the ops
  that follow. An \<^verbatim>\<open>UPDATE_STORAGE\<close> frame runs this loop on its ops, and after
  the frame none of its opIds is in the ledger.
\<close>

theorem ledger_entry_from_dispatch_until_ack:
  "((\<forall>op'\<in>set (buffer_storageOperations (buffer s)). opId op' \<noteq> None) \<longrightarrow>
      queued \<in> set (buffer_storageOperations (buffer s)) \<longrightarrow> opId queued = Some q \<longrightarrow>
      (\<forall>op'\<in>set (buffer_storageOperations (buffer s)). opId op' = Some q \<longrightarrow> op' = queued) \<longrightarrow>
        returned (tryFlushing E s) \<and>
        map_of (unacknowledgedOps (state_of (tryFlushing E s))) q = Some queued) \<and>
   (activeBatch s = None \<longrightarrow>
      (\<forall>op'\<in>set (buffer_storageOperations (buffer s) @ ops). opId op' \<noteq> None) \<longrightarrow>
      op \<in> set ops \<longrightarrow> opId op = Some k \<longrightarrow>
      (\<forall>op'\<in>set (buffer_storageOperations (buffer s) @ ops). opId op' = Some k \<longrightarrow> op' = op) \<longrightarrow>
        returned (dispatch E ops reverse s) \<and>
        map_of (unacknowledgedOps (state_of (dispatch E ops reverse s))) k = Some op) \<and>
   (opId a = Some j \<longrightarrow> j \<noteq> [] \<longrightarrow> map_of (unacknowledgedOps s) j \<noteq> None \<longrightarrow>
        decideSource False a s =
          Returned ACK (s\<lparr>unacknowledgedOps := AList.delete j (unacknowledgedOps s)\<rparr>) \<and>
        applyOps_loop E False (StorageOp a # rest) racc cr s =
          (case applyOp E a ACK (nodes s) of
             (NotModified, pool) \<Rightarrow>
               applyOps_loop E False rest racc cr
                 (s\<lparr>unacknowledgedOps := AList.delete j (unacknowledgedOps s), nodes := pool\<rparr>)
           | (Modified nodeId reversed, pool) \<Rightarrow>
               applyOps_loop E False rest
                 (if \<not> (nodeId \<noteq> [] \<and> nodeId \<in> set cr)
                  then map StorageOp reversed @ racc else racc)
                 (if optype a \<in> {CREATE_LIST, CREATE_MAP, CREATE_OBJECT}
                  then cr @ [nodeid a] else cr)
                 (s\<lparr>unacknowledgedOps := AList.delete j (unacknowledgedOps s), nodes := pool\<rparr>)) \<and>
        onMessage_UPDATE_STORAGE E [a] s =
          Returned ()
            (s\<lparr>unacknowledgedOps := AList.delete j (unacknowledgedOps s),
               nodes := snd (applyOp E a ACK (nodes s))\<rparr>) \<and>
        map_of (AList.delete j (unacknowledgedOps s)) j = None) \<and>
   ((\<forall>a\<in>set acks. \<not> falsy (opId a)) \<longrightarrow>
        onMessage_UPDATE_STORAGE E acks s =
          (case applyOps_loop E False (map StorageOp acks) [] [] s of
             Thrown e s1 \<Rightarrow> Thrown e s1
           | Returned reversed s1 \<Rightarrow> Returned () s1) \<and>
        returned (onMessage_UPDATE_STORAGE E acks s) \<and>
        (\<forall>a\<in>set acks. \<forall>k. opId a = Some k \<longrightarrow>
           map_of (unacknowledgedOps (state_of (onMessage_UPDATE_STORAGE E acks s))) k = None))"
proof (intro conjI impI)
  assume ids: "\<forall>op'\<in>set (buffer_storageOperations (buffer s)). opId op' \<noteq> None"
    and mem: "queued \<in> set (buffer_storageOperations (buffer s))" and q: "opId queued = Some q"
    and uniq: "\<forall>op'\<in>set (buffer_storageOperations (buffer s)). opId op' = Some q \<longrightarrow> op' = queued"
  from ids show "returned (tryFlushing E s)" by (rule tryFlushing_returned)
  from ledger_after_lookup [OF ids mem q uniq] tryFlushing_frame(7) [of E s]
  show "map_of (unacknowledgedOps (state_of (tryFlushing E s))) q = Some queued"
    by simp
next
  assume nb: "activeBatch s = None"
    and ids: "\<forall>op'\<in>set (buffer_storageOperations (buffer s) @ ops). opId op' \<noteq> None"
    and mem: "op \<in> set ops" and k: "opId op = Some k"
    and uniq: "\<forall>op'\<in>set (buffer_storageOperations (buffer s) @ ops). opId op' = Some k \<longrightarrow> op' = op"
  from dispatch_no_batch(3) [OF nb ids] show "returned (dispatch E ops reverse s)" .
  have "op \<in> set (buffer_storageOperations (buffer s) @ ops)" using mem by simp
  from ledger_after_lookup [OF ids this k uniq] dispatch_no_batch(2) [OF nb]
  show "map_of (unacknowledgedOps (state_of (dispatch E ops reverse s))) k = Some op"
    by simp
next
  assume "opId a = Some j" and "j \<noteq> []" and "map_of (unacknowledgedOps s) j \<noteq> None"
  then show "decideSource False a s =
          Returned ACK (s\<lparr>unacknowledgedOps := AList.delete j (unacknowledgedOps s)\<rparr>)"
    by (simp add: decideSource_remote)
next
  assume "opId a = Some j" and "j \<noteq> []" and "map_of (unacknowledgedOps s) j \<noteq> None"
  then show "applyOps_loop E False (StorageOp a # rest) racc cr s =
          (case applyOp E a ACK (nodes s) of
             (NotModified, pool) \<Rightarrow>
               applyOps_loop E False rest racc cr
                 (s\<lparr>unacknowledgedOps := AList.delete j (unacknowledgedOps s), nodes := pool\<rparr>)
           | (Modified nodeId reversed, pool) \<Rightarrow>
               applyOps_loop E False rest
                 (if \<not> (nodeId \<noteq> [] \<and> nodeId \<in> set cr)
                  then map StorageOp reversed @ racc else racc)
                 (if optype a \<in> {CREATE_LIST, CREATE_MAP, CREATE_OBJECT}
                  then cr @ [nodeid a] else cr)
                 (s\<lparr>unacknowledgedOps := AList.delete j (unacknowledgedOps s), nodes := pool\<rparr>))"
    by (simp add: decideSource_remote)
next
  assume "opId a = Some j" and "j \<noteq> []" and "map_of (unacknowledgedOps s) j \<noteq> None"
  then show "onMessage_UPDATE_STORAGE E [a] s =
          Returned ()
            (s\<lparr>unacknowledgedOps := AList.delete j (unacknowledgedOps s),
               nodes := snd (applyOp E a ACK (nodes s))\<rparr>)"
    by (rule onMessage_UPDATE_STORAGE_single)
next
  show "map_of (AList.delete j (unacknowledgedOps s)) j = None"
    by (simp add: delete_conv')
next
  assume "\<forall>a\<in>set acks. \<not> falsy (opId a)"
  then show "onMessage_UPDATE_STORAGE E acks s =
          (case applyOps_loop E False (map StorageOp acks) [] [] s of
             Thrown e s1 \<Rightarrow> Thrown e s1
           | Returned reversed s1 \<Rightarrow> Returned () s1)"
    by (simp add: onMessage_UPDATE_STORAGE_def applyOps_def assignOpIds_identity
          split: outcome.split)
next
  assume "\<forall>a\<in>set acks. \<not> falsy (opId a)"
  then show "returned (onMessage_UPDATE_STORAGE E acks s)"
    by (rule onMessage_UPDATE_STORAGE_all_acked(1))
next
  assume "\<forall>a\<in>set acks. \<not> falsy (opId a)"
  then show "\<forall>a\<in>set acks. \<forall>k. opId a = Some k \<longrightarrow>
           map_of (unacknowledgedOps (state_of (onMessage_UPDATE_STORAGE E acks s))) k = None"
    by (rule onMessage_UPDATE_STORAGE_all_acked(2))
qed

theorem ledger_entry_from_dispatch_until_ack_witness:
  "map_of (unacknowledgedOps (state_of (tryFlushing (recording_env 100 1000) loaded_room)))
      ''1:0'' = Some set_a \<and>
   socket offline_room = None \<and>
   returned (dispatch (recording_env 100 1000) [set_a, set_b] [] offline_room) \<and>
   map_of (unacknowledgedOps
             (state_of (dispatch (recording_env 100 1000) [set_a, set_b] [] offline_room)))
      ''1:1'' = Some set_b \<and>
   onMessage_UPDATE_STORAGE (recording_env 100 1000) [move_c] pending_room =
     Returned () (pending_room\<lparr>unacknowledgedOps := [(''1:0'', set_a)],
                               nodes := [(move_c, ACK)]\<rparr>) \<and>
   unacknowledgedOps
     (state_of (onMessage_UPDATE_STORAGE (recording_env 100 1000) [move_c, set_a] pending_room))
     = [] \<and>
   applyOps_loop (recording_env 100 1000) False [StorageOp move_c, StorageOp move_d] [] []
       moving_room =
     Returned [StorageOp (move_d\<lparr>opId := None\<rparr>), StorageOp (move_c\<lparr>opId := None\<rparr>)]
       (moving_room\<lparr>unacknowledgedOps := [], nodes := [(move_c, ACK), (move_d, ACK)]\<rparr>)"
proof -
  let ?E = "recording_env 100 1000"
  have q: "buffer_storageOperations (buffer loaded_room) = [set_a]"
    and qa: "opId set_a = Some ''1:0''" and qb: "opId set_b = Some ''1:1''"
    and ab: "set_a \<noteq> set_b"
    by code_simp+
  have t: "map_of (unacknowledgedOps (state_of (tryFlushing ?E loaded_room))) ''1:0''
             = Some set_a"
    using ledger_entry_from_dispatch_until_ack
      [where s = loaded_room and queued = set_a and q = "''1:0''" and E = ?E,
       THEN conjunct1]
    by (simp add: q qa)
  have a: "socket offline_room = None" by code_simp
  have nb: "activeBatch offline_room = None"
    and ob: "buffer_storageOperations (buffer offline_room) = []"
    by code_simp+
  have b: "returned (dispatch ?E [set_a, set_b] [] offline_room) \<and>
           map_of (unacknowledgedOps (state_of (dispatch ?E [set_a, set_b] [] offline_room)))
             ''1:1'' = Some set_b"
    using ledger_entry_from_dispatch_until_ack
      [where s = offline_room and ops = "[set_a, set_b]" and op = set_b and k = "''1:1''"
         and E = ?E and reverse = "[]", THEN conjunct2, THEN conjunct1]
    by (simp add: nb ob qa qb)
  have c1: "opId move_c = Some ''1:2''" by code_simp
  have c2: "map_of (unacknowledgedOps pending_room) ''1:2'' \<noteq> None" by code_simp
  have c3: "AList.delete ''1:2'' (unacknowledgedOps pending_room) = [(''1:0'', set_a)]"
    by code_simp
  have c4: "snd (applyOp ?E move_c ACK (nodes pending_room)) = [(move_c, ACK)]"
    by code_simp
  have c: "onMessage_UPDATE_STORAGE ?E [move_c] pending_room =
             Returned () (pending_room\<lparr>unacknowledgedOps := [(''1:0'', set_a)],
                                       nodes := [(move_c, ACK)]\<rparr>)"
    using ledger_entry_from_dispatch_until_ack
      [where s = pending_room and a = move_c and j = "''1:2''" and E = ?E,
       THEN conjunct2, THEN conjunct2, THEN conjunct1]
      c1 c2
    by (simp only: c3 c4) simp
  have d: "unacknowledgedOps
     (state_of (onMessage_UPDATE_STORAGE ?E [move_c, set_a] pending_room)) = []"
    by code_simp
  have m1: "map_of (unacknowledgedOps moving_room) ''1:2'' \<noteq> None" by code_simp
  have ne: "''1:2'' \<noteq> []" by simp
  note acked = ledger_entry_from_dispatch_until_ack
      [where s = moving_room and a = move_c and j = "''1:2''" and E = ?E
         and rest = "[StorageOp move_d]" and racc = "[]" and cr = "[]",
       THEN conjunct2, THEN conjunct2, THEN conjunct1,
       THEN mp, THEN mp, THEN mp, OF c1 ne m1]
  have m3: "(case applyOp ?E move_c ACK (nodes moving_room) of
             (NotModified, pool) \<Rightarrow>
               applyOps_loop ?E False [StorageOp move_d] [] []
                 (moving_room\<lparr>unacknowledgedOps :=
                     AList.delete ''1:2'' (unacknowledgedOps moving_room), nodes := pool\<rparr>)
           | (Modified nodeId reversed, pool) \<Rightarrow>
               applyOps_loop ?E False [StorageOp move_d]
                 (if \<not> (nodeId \<noteq> [] \<and> nodeId \<in> set [])
                  then map StorageOp reversed @ [] else [])
                 (if optype move_c \<in> {CREATE_LIST, CREATE_MAP, CREATE_OBJECT}
                  then [] @ [nodeid move_c] else [])
                 (moving_room\<lparr>unacknowledgedOps :=
                     AList.delete ''1:2'' (unacknowledgedOps moving_room), nodes := pool\<rparr>)) =
            Returned [StorageOp (move_d\<lparr>opId := None\<rparr>), StorageOp (move_c\<lparr>opId := None\<rparr>)]
              (moving_room\<lparr>unacknowledgedOps := [], nodes := [(move_c, ACK), (move_d, ACK)]\<rparr>)"
    by code_simp
  have m: "applyOps_loop ?E False [StorageOp move_c, StorageOp move_d] [] [] moving_room =
     Returned [StorageOp (move_d\<lparr>opId := None\<rparr>), StorageOp (move_c\<lparr>opId := None\<rparr>)]
       (moving_room\<lparr>unacknowledgedOps := [], nodes := [(move_c, ACK), (move_d, ACK)]\<rparr>)"
    using acked [THEN conjunct2, THEN conjunct1] by (simp only: m3)
  from t a b c d m show ?thesis by blast
qed

section \<open>Resending after the initial storage state\<close>



text \<open>The two ways in which the handler ends before anything is applied or sent.\<close>

lemma createOrUpdateRootFromMessage_no_items:
  "createOrUpdateRootFromMessage E [] s =
     Thrown (Error ''Internal error: cannot load storage without items'') s"
  by (simp add: createOrUpdateRootFromMessage_def)

lemma createOrUpdateRootFromMessage_no_root:
  "items \<noteq> [] \<Longrightarrow> root s = None \<Longrightarrow>
   buildRootAndParentToChildren E items = Inl e \<Longrightarrow>
   createOrUpdateRootFromMessage E items s = Thrown e s"
  by (simp add: createOrUpdateRootFromMessage_def load_def)



section \<open>The undo stack and its bound\<close>

lemma addToRealUndoStack_bounded:
  "length (undoStack s) \<le> 50 \<Longrightarrow> length (undoStack (addToRealUndoStack h s)) \<le> 50"
  by (simp add: addToRealUndoStack_def Let_def)

lemma addToRealUndoStack_full:
  "length (undoStack s) = 50 \<Longrightarrow>
   undoStack (addToRealUndoStack h s) = tl (undoStack s) @ [h]"
  by (simp add: addToRealUndoStack_def Let_def)

lemma addToRealUndoStack_newest:
  "length (undoStack s) \<le> 50 \<Longrightarrow>
   undoStack (addToRealUndoStack h s) =
     drop (length (undoStack s) + 1 - 50) (undoStack s @ [h])"
  by (cases "undoStack s") (simp_all add: addToRealUndoStack_def Let_def)

text \<open>
  Pushing batch after batch through \<^verbatim>\<open>_addToRealUndoStack\<close> keeps the newest
  fifty: after a hundred pushes on an empty stack, the last fifty batches.
\<close>

lemma addToRealUndoStack_fold:
  "length (undoStack s) \<le> 50 \<Longrightarrow>
   undoStack (fold addToRealUndoStack hs s) =
     drop (length (undoStack s) + length hs - 50) (undoStack s @ hs)"
proof (induction hs arbitrary: s)
  case Nil
  then show ?case by simp
next
  case (Cons h hs)
  let ?s1 = "addToRealUndoStack h s"
  have b: "length (undoStack ?s1) \<le> 50"
    using Cons.prems by (rule addToRealUndoStack_bounded)
  have step: "undoStack (fold addToRealUndoStack (h # hs) s) =
          drop (length (undoStack ?s1) + length hs - 50) (undoStack ?s1 @ hs)"
    using Cons.IH [OF b] by simp
  show ?case
  proof (cases "length (undoStack s) = 50")
    case True
    then have u1: "undoStack ?s1 = tl (undoStack s) @ [h]"
      by (rule addToRealUndoStack_full)
    from True obtain x xs where u: "undoStack s = x # xs"
      by (cases "undoStack s") auto
    with True have "length xs = 49" by simp
    then show ?thesis
      unfolding step u1 u by simp
  next
    case False
    with Cons.prems have "length (undoStack s) < 50" by simp
    then have u1: "undoStack ?s1 = undoStack s @ [h]"
      by (simp add: addToRealUndoStack_def Let_def)
    show ?thesis
      unfolding step u1 by simp
  qed
qed

text \<open>
  Claim C3. The undo stack is meant to hold at most fifty batches, and
  \<^verbatim>\<open>_addToRealUndoStack\<close> drops the oldest batch before it pushes onto a full
  stack. \<^verbatim>\<open>redo\<close> pushes with \<^verbatim>\<open>undoStack.push\<close> and no such check. A room
  that never connected, after fifty presence updates recorded in the history,
  one undo, one more recorded update and one redo, has fifty-one batches on
  its undo stack; no call of the trace throws.
\<close>

theorem undo_stack_holds_51_after_redo:
  "returned (run_calls update_between_undo_and_redo offline_room) \<and>
   length (undoStack (state_of (run_calls fifty_updates offline_room))) = 50 \<and>
   length (undoStack (state_of (run_calls update_between_undo_and_redo offline_room))) = 51"
  by code_simp

section \<open>The redo stack\<close>

text \<open>
  Claim C4. Outside a batch, \<^verbatim>\<open>pool.dispatch\<close> leaves the redo stack empty,
  and so does a \<^verbatim>\<open>batch\<close> whose callback ends with a batch that collected
  ops. \<^verbatim>\<open>undo\<close> and \<^verbatim>\<open>redo\<close> only ever extend the opposite stack: when the
  popped batch was applied, its reverse is pushed onto it.
\<close>

theorem redo_stack_cleared_by_local_ops_only:
  assumes "activeBatch s = None"
  shows "redoStack (state_of (dispatch E ops reverse s)) = [] \<and>
         (\<forall>b. activeBatch (state_of (callback
                  (s\<lparr>activeBatch := Some \<lparr> batch_ops = [], batch_reverseOps = [] \<rparr>\<rparr>))) = Some b
               \<and> batch_ops b \<noteq> [] \<longrightarrow>
               redoStack (state_of (batch E callback s)) = []) \<and>
         (\<exists>tail. redoStack (state_of (undo E s)) = redoStack s @ tail) \<and>
         (\<exists>tail. undoStack (state_of (redo E s)) = undoStack s @ tail) \<and>
         (undoStack s \<noteq> [] \<longrightarrow>
            (\<forall>applied reversed s2.
               applyOps E (last (undoStack s)) True
                 (s\<lparr>undoStack := butlast (undoStack s), pausedHistory := None\<rparr>)
                 = Returned (applied, reversed) s2 \<longrightarrow>
               redoStack (state_of (undo E s)) = redoStack s @ [reversed])) \<and>
         (redoStack s \<noteq> [] \<longrightarrow>
            (\<forall>applied reversed s2.
               applyOps E (last (redoStack s)) True
                 (s\<lparr>redoStack := butlast (redoStack s), pausedHistory := None\<rparr>)
                 = Returned (applied, reversed) s2 \<longrightarrow>
               undoStack (state_of (redo E s)) = undoStack s @ [reversed]))"
proof (intro conjI allI impI)
  show "redoStack (state_of (dispatch E ops reverse s)) = []"
    using assms by (rule dispatch_no_batch(1))
next
  fix b
  assume "activeBatch (state_of (callback
            (s\<lparr>activeBatch := Some \<lparr> batch_ops = [], batch_reverseOps = [] \<rparr>\<rparr>))) = Some b
          \<and> batch_ops b \<noteq> []"
  then show "redoStack (state_of (batch E callback s)) = []"
    using assms by (simp add: batch_state batch_finally_redoStack)
next
  show "\<exists>tail. redoStack (state_of (undo E s)) = redoStack s @ tail"
  proof (cases "undoStack s = []")
    case True
    with assms show ?thesis by (simp add: undo_def)
  next
    case False
    with assms show ?thesis by (rule undo_state(3))
  qed
next
  show "\<exists>tail. undoStack (state_of (redo E s)) = undoStack s @ tail"
  proof (cases "redoStack s = []")
    case True
    with assms show ?thesis by (simp add: redo_def)
  next
    case False
    with assms show ?thesis by (rule redo_state(3))
  qed
next
  fix applied reversed s2
  assume "undoStack s \<noteq> []"
    and "applyOps E (last (undoStack s)) True
           (s\<lparr>undoStack := butlast (undoStack s), pausedHistory := None\<rparr>)
           = Returned (applied, reversed) s2"
  with assms show "redoStack (state_of (undo E s)) = redoStack s @ [reversed]"
    by (rule undo_state(4))
next
  fix applied reversed s2
  assume "redoStack s \<noteq> []"
    and "applyOps E (last (redoStack s)) True
           (s\<lparr>redoStack := butlast (redoStack s), pausedHistory := None\<rparr>)
           = Returned (applied, reversed) s2"
  with assms show "undoStack (state_of (redo E s)) = undoStack s @ [reversed]"
    by (rule redo_state(4))
qed

theorem redo_stack_cleared_by_local_ops_only_witness:
  "redoStack history_room = [[StorageOp (set_b\<lparr>opId := None\<rparr>)]] \<and>
   redoStack (state_of (dispatch (recording_env 100 1000) [set_b] [] history_room)) = [] \<and>
   redoStack (state_of (batch (recording_env 100 1000)
                          (dispatch (recording_env 100 1000) [set_b] []) history_room)) = [] \<and>
   redoStack (state_of (undo (recording_env 100 1000) history_room)) =
     redoStack history_room @ [[StorageOp (set_a\<lparr>opId := None\<rparr>)]] \<and>
   undoStack (state_of (redo (recording_env 100 1000) history_room)) =
     undoStack history_room @ [[StorageOp (set_b\<lparr>opId := None\<rparr>)]]"
proof -
  let ?E = "recording_env 100 1000"
  have nb: "activeBatch history_room = None" by code_simp
  have cb: "activeBatch (state_of (dispatch ?E [set_b] []
              (history_room\<lparr>activeBatch := Some \<lparr> batch_ops = [], batch_reverseOps = [] \<rparr>\<rparr>)))
            = Some \<lparr> batch_ops = [set_b], batch_reverseOps = [] \<rparr>"
    by code_simp
  have un: "undoStack history_room \<noteq> []" and re: "redoStack history_room \<noteq> []"
    by code_simp+
  have au: "applyOps ?E (last (undoStack history_room)) True
              (history_room\<lparr>undoStack := butlast (undoStack history_room), pausedHistory := None\<rparr>)
            = Returned ([StorageOp (set_a\<lparr>opId := Some ''1:3''\<rparr>)],
                        [StorageOp (set_a\<lparr>opId := None\<rparr>)])
                (state_of (applyOps ?E (last (undoStack history_room)) True
                   (history_room\<lparr>undoStack := butlast (undoStack history_room),
                                  pausedHistory := None\<rparr>)))"
    by code_simp
  have ar: "applyOps ?E (last (redoStack history_room)) True
              (history_room\<lparr>redoStack := butlast (redoStack history_room), pausedHistory := None\<rparr>)
            = Returned ([StorageOp (set_b\<lparr>opId := Some ''1:3''\<rparr>)],
                        [StorageOp (set_b\<lparr>opId := None\<rparr>)])
                (state_of (applyOps ?E (last (redoStack history_room)) True
                   (history_room\<lparr>redoStack := butlast (redoStack history_room),
                                  pausedHistory := None\<rparr>)))"
    by code_simp
  have r0: "redoStack history_room = [[StorageOp (set_b\<lparr>opId := None\<rparr>)]]"
    by code_simp
  from redo_stack_cleared_by_local_ops_only
         [OF nb, of ?E "[set_b]" "[]" "dispatch ?E [set_b] []"] cb un re au ar r0
  show ?thesis by (simp del: last.simps butlast.simps) blast
qed

section \<open>Throttled flushing\<close>

text \<open>
  Claim C5, as the code has it. With an open socket and every buffered op
  carrying an opId: when strictly more than \<open>throttleDelay\<close> has passed since
  the last flush and there is something to send, the composed messages are
  sent as one frame, the buffer is reset and \<open>lastFlushTime\<close> becomes \<open>now\<close>;
  when there is nothing to send, nothing changes; when at most
  \<open>throttleDelay\<close> has passed, no frame is sent and the flush timer is set to
  the remaining delay, replacing the one before. The buffered ops are in the
  ledger in each case.
\<close>

theorem tryFlushing_throttle:
  assumes "socket s = Some OPEN"
    and "\<forall>op\<in>set (buffer_storageOperations (buffer s)). opId op \<noteq> None"
  shows
    "(now E - lastFlushTime s > throttleDelay E \<and> flushDataToMessages s \<noteq> [] \<longrightarrow>
        tryFlushing E s =
          Returned ()
            (s\<lparr>unacknowledgedOps :=
                  ledger_after (buffer_storageOperations (buffer s)) (unacknowledgedOps s),
               sent := sent s @ [flushDataToMessages s],
               buffer := \<lparr> buffer_me = None, buffer_messages = [],
                            buffer_storageOperations = [] \<rparr>,
               lastFlushTime := now E\<rparr>)) \<and>
     (now E - lastFlushTime s > throttleDelay E \<and> flushDataToMessages s = [] \<longrightarrow>
        tryFlushing E s = Returned () s) \<and>
     (now E - lastFlushTime s \<le> throttleDelay E \<longrightarrow>
        tryFlushing E s =
          Returned ()
            (s\<lparr>unacknowledgedOps :=
                  ledger_after (buffer_storageOperations (buffer s)) (unacknowledgedOps s),
               timeoutHandles_flush :=
                  Some (throttleDelay E - (now E - lastFlushTime s))\<rparr>))"
proof -
  let ?s1 = "s\<lparr>unacknowledgedOps :=
                  ledger_after (buffer_storageOperations (buffer s)) (unacknowledgedOps s)\<rparr>"
  have fe: "tryFlushing_forEach (buffer_storageOperations (buffer s)) s = Returned () ?s1"
    using assms(2) by (rule tryFlushing_forEach_Returned)
  have fl: "flushDataToMessages ?s1 = flushDataToMessages s"
    by (rule flushDataToMessages_cong) simp
  have empty: "flushDataToMessages s = [] \<Longrightarrow> ?s1 = s"
    using flushDataToMessages_Nil [of s] by simp
  show ?thesis
    using assms(1) empty by (simp add: tryFlushing_alt fe fl)
qed

theorem tryFlushing_throttle_witness:
  "tryFlushing (recording_env 100 1000) loaded_room =
     Returned ()
       (loaded_room\<lparr>unacknowledgedOps := [(''1:0'', set_a)],
                    sent := [[UPDATE_PRESENCE (Some (- 1)) [(''cursor'', Some JNull)],
                              BROADCAST_EVENT (JStr ''hi''), FETCH_STORAGE,
                              UPDATE_STORAGE [set_a]]],
                    buffer := \<lparr> buffer_me = None, buffer_messages = [],
                                 buffer_storageOperations = [] \<rparr>,
                    lastFlushTime := 1000\<rparr>) \<and>
   tryFlushing (recording_env 100 1000) (loaded_room\<lparr>lastFlushTime := 950\<rparr>) =
     Returned ()
       (loaded_room\<lparr>lastFlushTime := 950, unacknowledgedOps := [(''1:0'', set_a)],
                    timeoutHandles_flush := Some 50\<rparr>)"
proof -
  let ?E = "recording_env 100 1000"
  let ?late = "loaded_room\<lparr>lastFlushTime := 950\<rparr>"
  have h1: "socket loaded_room = Some OPEN" and h1': "socket ?late = Some OPEN"
    by code_simp+
  have h2: "\<forall>op\<in>set (buffer_storageOperations (buffer loaded_room)). opId op \<noteq> None"
    and h2': "\<forall>op\<in>set (buffer_storageOperations (buffer ?late)). opId op \<noteq> None"
    by (simp_all add: loaded_room_def set_a_def)
  have t: "now ?E - lastFlushTime loaded_room > throttleDelay ?E"
    and t': "now ?E - lastFlushTime ?late \<le> throttleDelay ?E"
    by code_simp+
  have m: "flushDataToMessages loaded_room =
             [UPDATE_PRESENCE (Some (- 1)) [(''cursor'', Some JNull)],
              BROADCAST_EVENT (JStr ''hi''), FETCH_STORAGE, UPDATE_STORAGE [set_a]]"
    by code_simp
  have l: "ledger_after (buffer_storageOperations (buffer loaded_room))
             (unacknowledgedOps loaded_room) = [(''1:0'', set_a)]"
    and l': "ledger_after (buffer_storageOperations (buffer ?late))
             (unacknowledgedOps ?late) = [(''1:0'', set_a)]"
    by code_simp+
  have s0: "sent loaded_room = []" by code_simp
  have d: "throttleDelay ?E - (now ?E - lastFlushTime ?late) = 50" by code_simp
  from tryFlushing_throttle [OF h1 h2, of ?E] t m l s0
  have a: "tryFlushing ?E loaded_room =
     Returned ()
       (loaded_room\<lparr>unacknowledgedOps := [(''1:0'', set_a)],
                    sent := [[UPDATE_PRESENCE (Some (- 1)) [(''cursor'', Some JNull)],
                              BROADCAST_EVENT (JStr ''hi''), FETCH_STORAGE,
                              UPDATE_STORAGE [set_a]]],
                    buffer := \<lparr> buffer_me = None, buffer_messages = [],
                                 buffer_storageOperations = [] \<rparr>,
                    lastFlushTime := 1000\<rparr>)"
    by (simp add: recording_env_def)
  from tryFlushing_throttle [OF h1' h2', of ?E] t' l' d
  have b: "tryFlushing ?E ?late =
     Returned ()
       (loaded_room\<lparr>lastFlushTime := 950, unacknowledgedOps := [(''1:0'', set_a)],
                    timeoutHandles_flush := Some 50\<rparr>)"
    by simp
  from a b show ?thesis by (rule conjI)
qed

text \<open>
  The claim as stated fails when exactly \<open>throttleDelay\<close> has passed: the
  socket is open, \<open>now - lastFlushTime = throttleDelay\<close>, there is a presence
  keyframe to send, and \<^verbatim>\<open>tryFlushing\<close> sends nothing, keeps the buffer and
  \<open>lastFlushTime\<close>, and sets a timer of zero delay.
\<close>

theorem tryFlushing_at_throttleDelay_counterexample:
  "socket (open_room\<lparr>lastFlushTime := 900\<rparr>) = Some OPEN \<and>
   now (recording_env 100 1000) - lastFlushTime (open_room\<lparr>lastFlushTime := 900\<rparr>)
     \<ge> throttleDelay (recording_env 100 1000) \<and>
   flushDataToMessages (open_room\<lparr>lastFlushTime := 900\<rparr>) \<noteq> [] \<and>
   tryFlushing (recording_env 100 1000) (open_room\<lparr>lastFlushTime := 900\<rparr>) =
     Returned () (open_room\<lparr>lastFlushTime := 900, timeoutHandles_flush := Some 0\<rparr>) \<and>
   sent (state_of (tryFlushing (recording_env 100 1000) (open_room\<lparr>lastFlushTime := 900\<rparr>)))
     = [] \<and>
   lastFlushTime (state_of (tryFlushing (recording_env 100 1000)
                              (open_room\<lparr>lastFlushTime := 900\<rparr>)))
     \<noteq> now (recording_env 100 1000)"
  by code_simp

section \<open>Broadcast events\<close>

text \<open>
  Claim C6, as the code has it. \<^verbatim>\<open>broadcastEvent(event)\<close> without
  \<open>shouldQueueEventIfNotReady\<close> is a silent drop when there is no socket at
  all (\<^verbatim>\<open>context.socket === null\<close>): it returns, and the context, with its
  buffer and the frames sent, is what it was.
\<close>

theorem broadcastEvent_silent_drop:
  assumes "socket s = None"
  shows "broadcastEvent E event False s = Returned () s"
  using assms by (simp add: broadcastEvent_def)

theorem broadcastEvent_silent_drop_witness:
  "socket offline_room = None \<and>
   broadcastEvent (recording_env 100 1000) (JStr ''hi'') False offline_room
     = Returned () offline_room"
proof -
  have h: "socket offline_room = None" by code_simp
  from broadcastEvent_silent_drop [OF h] h show ?thesis by simp
qed

text \<open>
  The claim as stated fails for a channel that is not open because its
  socket is still connecting: the event is queued in the buffer.
\<close>

theorem broadcastEvent_connecting_counterexample:
  "socket connecting_room = Some CONNECTING \<and>
   buffer_messages (buffer connecting_room) = [] \<and>
   buffer_messages (buffer (state_of
      (broadcastEvent (recording_env 100 1000) (JStr ''hi'') False connecting_room)))
     = [BROADCAST_EVENT (JStr ''hi'')]"
  by code_simp

section \<open>Composing the outbound frame\<close>

text \<open>
  Claim C7. The messages composed for a flush are, in this order: one
  \<^verbatim>\<open>UPDATE_PRESENCE\<close> message if \<open>buffer.me\<close> is set, with \<open>targetActor\<close> \<open>-1\<close>
  for a full update and none for a partial one; the queued messages in the
  order they were queued; one \<^verbatim>\<open>UPDATE_STORAGE\<close> message with all buffered
  storage ops if there are any.
\<close>

theorem flushDataToMessages_order:
  "flushDataToMessages s =
     (case buffer_me (buffer s) of
        None \<Rightarrow> []
      | Some (Full d) \<Rightarrow> [UPDATE_PRESENCE (Some (- 1)) d]
      | Some (Partial d) \<Rightarrow> [UPDATE_PRESENCE None d])
     @ buffer_messages (buffer s)
     @ (if buffer_storageOperations (buffer s) = [] then []
        else [UPDATE_STORAGE (buffer_storageOperations (buffer s))])"
  by (simp add: flushDataToMessages_def foldl_push push_def Let_def
           split: option.split BufferedMe.split)

theorem flushDataToMessages_order_witness:
  "flushDataToMessages loaded_room =
     [UPDATE_PRESENCE (Some (- 1)) [(''cursor'', Some JNull)],
      BROADCAST_EVENT (JStr ''hi''), FETCH_STORAGE, UPDATE_STORAGE [set_a]] \<and>
   flushDataToMessages
     (loaded_room\<lparr>buffer := \<lparr> buffer_me = Some (Partial [(''cursor'', Some JNull)]),
                               buffer_messages = [], buffer_storageOperations = [] \<rparr>\<rparr>) =
     [UPDATE_PRESENCE None [(''cursor'', Some JNull)]]"
  using flushDataToMessages_order [of loaded_room]
    flushDataToMessages_order
      [of "loaded_room\<lparr>buffer := \<lparr> buffer_me = Some (Partial [(''cursor'', Some JNull)]),
                               buffer_messages = [], buffer_storageOperations = [] \<rparr>\<rparr>"]
  by (simp add: loaded_room_def)

section \<open>Undo and redo inside a batch\<close>

text \<open>
  Claim C8. While a batch is active, \<^verbatim>\<open>undo()\<close> and \<^verbatim>\<open>redo()\<close> throw at once,
  and the context they leave, with both stacks and the node pool, is the one
  they were called in.
\<close>

theorem undo_redo_forbidden_during_batch:
  assumes "activeBatch s \<noteq> None"
  shows "undo E s = Thrown (Error ''undo is not allowed during a batch'') s \<and>
         redo E s = Thrown (Error ''redo is not allowed during a batch'') s"
  using assms by (simp add: undo_def redo_def)

theorem undo_redo_forbidden_during_batch_witness:
  "activeBatch batching_room \<noteq> None \<and>
   undoStack batching_room \<noteq> [] \<and> redoStack batching_room \<noteq> [] \<and>
   undo (recording_env 100 1000) batching_room =
     Thrown (Error ''undo is not allowed during a batch'') batching_room \<and>
   redo (recording_env 100 1000) batching_room =
     Thrown (Error ''redo is not allowed during a batch'') batching_room"
proof -
  have h: "activeBatch batching_room \<noteq> None" by code_simp
  have u: "undoStack batching_room \<noteq> []" and r: "redoStack batching_room \<noteq> []"
    by code_simp+
  from undo_redo_forbidden_during_batch [OF h] h u r show ?thesis by simp
qed

section \<open>The storage status\<close>

text \<open>
  Claim C9. \<^verbatim>\<open>getStorageStatus()\<close> is \<open>not-loaded\<close> exactly when storage was
  never requested (\<^verbatim>\<open>_getInitialStatePromise\<close> is null: it is null in a new
  room and set once \<^verbatim>\<open>startLoadingStorage\<close> has returned); \<open>loading\<close> exactly
  when it was requested and there is no root; and, requested with a root,
  \<open>synchronizing\<close> exactly when the ledger is not empty and \<open>synchronized\<close>
  exactly when it is.
\<close>

theorem getStorageStatus_cases:
  "(getStorageStatus s = not_loaded \<longleftrightarrow> \<not> getInitialStatePromise s) \<and>
   (getStorageStatus s = loading \<longleftrightarrow> getInitialStatePromise s \<and> root s = None) \<and>
   (getInitialStatePromise s \<and> root s \<noteq> None \<longrightarrow>
      (getStorageStatus s = synchronizing \<longleftrightarrow> unacknowledgedOps s \<noteq> []) \<and>
      (getStorageStatus s = synchronized \<longleftrightarrow> unacknowledgedOps s = [])) \<and>
   \<not> getInitialStatePromise (initial_context p pool) \<and>
   (returned (startLoadingStorage E s) \<longrightarrow>
      getInitialStatePromise (state_of (startLoadingStorage E s)))"
  by (auto simp: getStorageStatus_def initial_context_def startLoadingStorage_def
           split: outcome.splits)

theorem getStorageStatus_cases_witness:
  "getStorageStatus offline_room = not_loaded \<and>
   returned (startLoadingStorage (recording_env 100 1000) offline_room) \<and>
   getStorageStatus (state_of (startLoadingStorage (recording_env 100 1000) offline_room))
     = loading \<and>
   getStorageStatus pending_room = synchronizing \<and>
   getStorageStatus (pending_room\<lparr>unacknowledgedOps := []\<rparr>) = synchronized"
proof -
  let ?E = "recording_env 100 1000"
  let ?s = "state_of (startLoadingStorage ?E offline_room)"
  have r: "returned (startLoadingStorage ?E offline_room)" by code_simp
  have a: "\<not> getInitialStatePromise offline_room" and b: "root ?s = None"
    and c: "getInitialStatePromise pending_room \<and> root pending_room \<noteq> None"
    and d: "unacknowledgedOps pending_room \<noteq> []"
    by code_simp+
  from getStorageStatus_cases [of offline_room "[]" "[]" ?E]
    getStorageStatus_cases [of ?s "[]" "[]" ?E]
    getStorageStatus_cases [of pending_room "[]" "[]" ?E]
    getStorageStatus_cases [of "pending_room\<lparr>unacknowledgedOps := []\<rparr>" "[]" "[]" ?E]
    r a b c d
  show ?thesis by auto
qed

section \<open>Paused history across undo and redo\<close>

text \<open>
  Claim C10. Outside a batch, an \<^verbatim>\<open>undo()\<close> that pops a batch leaves
  \<open>pausedHistory\<close> null and the undo stack without its last batch, so what
  was collected since \<^verbatim>\<open>pauseHistory()\<close> is on no stack, and a
  \<^verbatim>\<open>resumeHistory()\<close> after it does not change the undo stack. The same holds
  for a \<^verbatim>\<open>redo()\<close> that pops a batch, with the redo stack.
\<close>

theorem undo_redo_discard_paused_history:
  assumes "activeBatch s = None"
  shows "(undoStack s \<noteq> [] \<longrightarrow>
            pausedHistory (state_of (undo E s)) = None \<and>
            undoStack (state_of (undo E s)) = butlast (undoStack s) \<and>
            undoStack (resumeHistory (state_of (undo E s))) = undoStack (state_of (undo E s))) \<and>
         (redoStack s \<noteq> [] \<longrightarrow>
            pausedHistory (state_of (redo E s)) = None \<and>
            redoStack (state_of (redo E s)) = butlast (redoStack s) \<and>
            undoStack (resumeHistory (state_of (redo E s))) = undoStack (state_of (redo E s)))"
proof (intro conjI impI)
  assume u: "undoStack s \<noteq> []"
  from assms u show p: "pausedHistory (state_of (undo E s)) = None"
    by (rule undo_state(1))
  from assms u show "undoStack (state_of (undo E s)) = butlast (undoStack s)"
    by (rule undo_state(2))
  from p show "undoStack (resumeHistory (state_of (undo E s))) = undoStack (state_of (undo E s))"
    by (rule resumeHistory_idle)
next
  assume r: "redoStack s \<noteq> []"
  from assms r show p: "pausedHistory (state_of (redo E s)) = None"
    by (rule redo_state(1))
  from assms r show "redoStack (state_of (redo E s)) = butlast (redoStack s)"
    by (rule redo_state(2))
  from p show "undoStack (resumeHistory (state_of (redo E s))) = undoStack (state_of (redo E s))"
    by (rule resumeHistory_idle)
qed

theorem undo_redo_discard_paused_history_witness:
  "pausedHistory paused_room = Some [PresenceOp [(''x'', None)]] \<and>
   returned (undo (recording_env 100 1000) paused_room) \<and>
   pausedHistory (state_of (undo (recording_env 100 1000) paused_room)) = None \<and>
   undoStack (resumeHistory (state_of (undo (recording_env 100 1000) paused_room))) = [] \<and>
   undoStack (resumeHistory paused_room) =
     undoStack paused_room @ [[PresenceOp [(''x'', None)]]] \<and>
   pausedHistory (state_of (redo (recording_env 100 1000) paused_room)) = None \<and>
   undoStack (resumeHistory (state_of (redo (recording_env 100 1000) paused_room))) =
     undoStack (state_of (redo (recording_env 100 1000) paused_room))"
proof -
  let ?E = "recording_env 100 1000"
  have nb: "activeBatch paused_room = None" by code_simp
  have u: "undoStack paused_room \<noteq> []" and r: "redoStack paused_room \<noteq> []"
    by code_simp+
  have p: "pausedHistory paused_room = Some [PresenceOp [(''x'', None)]]" by code_simp
  have ret: "returned (undo ?E paused_room)" by code_simp
  have b: "butlast (undoStack paused_room) = []" by code_simp
  have res: "undoStack (resumeHistory paused_room) =
               undoStack paused_room @ [[PresenceOp [(''x'', None)]]]"
    by code_simp
  from undo_redo_discard_paused_history [OF nb, of ?E] u r p ret b res
  show ?thesis by simp
qed

end
